theory Spec2Isabelle
  imports Main "HOL-Library.Word"
begin

unbundle bit_operations_syntax

section \<open>Error model: \<open>MongoError\<close>\<close>

text \<open>
  A Go \<open>error\<close> value is either nil or an object whose \<open>Error()\<close> method yields a
  message; the cause of a \<open>MongoError\<close> is therefore a \<open>string option\<close>, \<open>None\<close> being
  nil. Go's \<open>int\<close> is modelled as \<open>int\<close>: the code only stores and prints it.
\<close>

record MongoError =
  err :: "string option"
  code :: int
  codeName :: string
  errInfo :: string

text \<open>
  \<open>bson.D\<close> is an ordered sequence of \<open>bson.E{Key, Value}\<close>; the values that \<open>ToBSON\<close>
  stores are Go ints and strings.
\<close>

datatype bson_value = BInt int | BString string

type_synonym bson_E = "string \<times> bson_value"
type_synonym bson_D = "bson_E list"

datatype panic = NilPointerDereference | IndexOutOfRange | MakeSliceLenOutOfRange | ExplicitPanic

definition NewMongoError :: "string option \<Rightarrow> int \<Rightarrow> string \<Rightarrow> MongoError" where
  "NewMongoError e c n = \<lparr>err = e, code = c, codeName = n, errInfo = ''''\<rparr>"

definition NewMongoErrorWithInfo :: "string option \<Rightarrow> int \<Rightarrow> string \<Rightarrow> string \<Rightarrow> MongoError" where
  "NewMongoErrorWithInfo e c n i = \<lparr>err = e, code = c, codeName = n, errInfo = i\<rparr>"

definition GetErrorInfo :: "MongoError \<Rightarrow> string" where
  "GetErrorInfo me = errInfo me"

definition GetCode :: "MongoError \<Rightarrow> int" where
  "GetCode me = code me"

definition GetCodeName :: "MongoError \<Rightarrow> string" where
  "GetCodeName me = codeName me"

text \<open>
  \<open>ToBSON\<close> builds the document by successive appends, as the source does: first
  \<open>{ok, 0}\<close>, then \<open>errmsg\<close> under the nil test, then \<open>code\<close> and \<open>codeName\<close>.
\<close>

definition ToBSON :: "MongoError \<Rightarrow> bson_D" where
  "ToBSON me =
     (let doc = [(''ok'', BInt 0)];
          doc = (case err me of
                   Some msg \<Rightarrow> doc @ [(''errmsg'', BString msg)]
                 | None \<Rightarrow> doc)
      in doc @ [(''code'', BInt (code me)), (''codeName'', BString (codeName me))])"

text \<open>The decimal rendering that \<open>%v\<close> gives a Go int.\<close>

fun show_nat :: "nat \<Rightarrow> string" where
  "show_nat n =
     (if n < 10 then [''0123456789'' ! n]
      else show_nat (n div 10) @ [''0123456789'' ! (n mod 10)])"

declare show_nat.simps [simp del]

definition show_int :: "int \<Rightarrow> string" where
  "show_int i = (if i < 0 then CHR ''-'' # show_nat (nat (- i)) else show_nat (nat i))"

text \<open>
  \<open>Error\<close> calls \<open>me.err.Error()\<close> with no nil test: on a nil cause the call panics
  (nil pointer dereference), which is the \<open>Inl\<close> branch.
\<close>

definition Error :: "MongoError \<Rightarrow> panic + string" where
  "Error me =
     (case err me of
        None \<Rightarrow> Inl NilPointerDereference
      | Some msg \<Rightarrow>
          Inr (''code='' @ show_int (code me) @ '' codeName='' @ codeName me
               @ '' errmsg = '' @ msg))"

text \<open>The keys of a document, in order.\<close>

definition keys :: "(string \<times> 'v) list \<Rightarrow> string list" where
  "keys d = map fst d"

section \<open>Wire codec: \<open>CommandReplyMessage\<close>\<close>

text \<open>
  Bytes are \<open>8 word\<close>, Go's \<open>int32\<close> is \<open>32 word\<close> read through \<open>sint\<close>. Go's \<open>int\<close>
  (64 bits on the platforms the proxy runs on) is modelled as \<open>int\<close>: the only
  arithmetic on it is a sum of \<open>int32\<close> values and a cursor below that sum, which
  would need more than \<open>2 ^ 32\<close> documents in one message to leave 64 bits.
\<close>

type_synonym byte = "8 word"
type_synonym int32 = "32 word"

datatype error = MalformedMessage | BackendUnavailable | ClientIOError | InterceptorError

record SimpleBSON =
  Size :: int32
  BSON :: "byte list"

record MessageHeader =
  Size :: int32
  RequestID :: int32
  ResponseTo :: int32
  OpCode :: int32

record CommandReplyMessage =
  header :: MessageHeader
  CommandReply :: SimpleBSON
  Metadata :: SimpleBSON
  OutputDocs :: "SimpleBSON list"

text \<open>The zero values that Go gives \<open>SimpleBSON{}\<close> and \<open>&CommandReplyMessage{}\<close>.\<close>

definition zeroSimpleBSON :: SimpleBSON where
  "zeroSimpleBSON = \<lparr>SimpleBSON.Size = 0, BSON = []\<rparr>"

definition zeroMessageHeader :: MessageHeader where
  "zeroMessageHeader = \<lparr>MessageHeader.Size = 0, RequestID = 0, ResponseTo = 0, OpCode = 0\<rparr>"

definition zeroCommandReplyMessage :: CommandReplyMessage where
  "zeroCommandReplyMessage =
     \<lparr>header = zeroMessageHeader, CommandReply = zeroSimpleBSON,
      Metadata = zeroSimpleBSON, OutputDocs = []\<rparr>"

subsection \<open>Little-endian \<open>int32\<close>\<close>

definition le32 :: "byte \<Rightarrow> byte \<Rightarrow> byte \<Rightarrow> byte \<Rightarrow> int32" where
  "le32 b0 b1 b2 b3 =
     ucast b0 OR push_bit 8 (ucast b1) OR push_bit 16 (ucast b2) OR push_bit 24 (ucast b3)"

definition writeInt32 :: "int32 \<Rightarrow> byte list" where
  "writeInt32 w = [ucast w, ucast (drop_bit 8 w), ucast (drop_bit 16 w), ucast (drop_bit 24 w)]"

subsection \<open>Go slices\<close>

text \<open>
  \<open>buf[i:]\<close> panics unless \<open>0 \<le> i \<le> len(buf)\<close>; \<open>make([]byte, n)\<close> panics on a negative
  \<open>n\<close> and gives \<open>n\<close> zero bytes otherwise; \<open>copy(dst, src)\<close> copies
  \<open>min(len(dst), len(src))\<close> bytes.
\<close>

definition slice_from :: "byte list \<Rightarrow> int \<Rightarrow> panic + byte list" where
  "slice_from buf i =
     (if i < 0 \<or> int (length buf) < i then Inl IndexOutOfRange else Inr (drop (nat i) buf))"

definition make_bytes :: "int \<Rightarrow> panic + byte list" where
  "make_bytes n = (if n < 0 then Inl MakeSliceLenOutOfRange else Inr (replicate (nat n) 0))"

definition copy_at :: "byte list \<Rightarrow> nat \<Rightarrow> byte list \<Rightarrow> byte list" where
  "copy_at buf loc src =
     (let n = min (length buf - loc) (length src)
      in take loc buf @ take n src @ drop (loc + n) buf)"

text \<open>Sequencing of steps that may panic.\<close>

definition and_then :: "panic + 'a \<Rightarrow> ('a \<Rightarrow> panic + 'b) \<Rightarrow> panic + 'b" where
  "and_then r f = (case r of Inl p \<Rightarrow> Inl p | Inr x \<Rightarrow> f x)"

subsection \<open>Helpers of the repository that are not in the sources at hand\<close>

text \<open>
  Modelled from the spec: \<open>parseSimpleBSON\<close> is called by \<open>parseCommandReplyMessage\<close>
  and is missing from the sources. The spec has the sizes of embedded documents
  "self-declared in their own first 4 bytes (standard BSON-style framing)",
  little-endian; a RawDocument is "an opaque byte span with a recorded size"; parsing
  "fails with MalformedMessage when a declared document size exceeds remaining buffer
  length", and malformed input "always yields MalformedMessage, never a panic/crash". So
  the model reads the size, rejects it when it exceeds the buffer, and otherwise
  returns the span of that many bytes with the size recorded. The spec does not say
  what a buffer too short to declare a size, or a negative declared size, gives: no
  span of such a size exists, and the model rejects both as malformed. Like the Go
  function it returns a document and an error, the zero document with an error.
\<close>

definition parseSimpleBSON :: "byte list \<Rightarrow> SimpleBSON \<times> error option" where
  "parseSimpleBSON b =
     (case b of
        b0 # b1 # b2 # b3 # _ \<Rightarrow>
          (let size = le32 b0 b1 b2 b3 in
           if sint size < 0 \<or> int (length b) < sint size
           then (zeroSimpleBSON, Some MalformedMessage)
           else (\<lparr>SimpleBSON.Size = size, BSON = take (nat (sint size)) b\<rparr>, None))
      | _ \<Rightarrow> (zeroSimpleBSON, Some MalformedMessage))"

text \<open>
  Modelled from the spec: \<open>MessageHeader.WriteInto\<close> is missing from the sources. The
  spec's wire format is a "little-endian 16-byte header {int32 size, int32 requestID,
  int32 responseTo, int32 opCode}"; the model writes these sixteen bytes at the start
  of the buffer, and panics on a buffer that cannot hold them.
\<close>

definition WriteInto :: "MessageHeader \<Rightarrow> byte list \<Rightarrow> panic + byte list" where
  "WriteInto h buf =
     (if length buf < 16 then Inl IndexOutOfRange
      else Inr (writeInt32 (MessageHeader.Size h) @ writeInt32 (RequestID h)
                @ writeInt32 (ResponseTo h) @ writeInt32 (OpCode h) @ drop 16 buf))"

text \<open>
  Modelled from the spec: \<open>SimpleBSON.Copy\<close> is missing from the sources. A
  RawDocument is "copied verbatim", and "each consumed span's recorded size advances
  the read cursor by exactly that many bytes"; \<open>Serialize\<close> passes the cursor by
  reference. The model copies the span into the buffer at the cursor
  (\<open>copy(buf[loc:], BSON)\<close>) and advances the cursor by the recorded size.
\<close>

definition Copy :: "SimpleBSON \<Rightarrow> int \<times> byte list \<Rightarrow> panic + (int \<times> byte list)" where
  "Copy sb st =
     (case st of (loc, buf) \<Rightarrow>
        and_then (slice_from buf loc)
          (\<lambda>_. Inr (loc + sint (SimpleBSON.Size sb), copy_at buf (nat loc) (BSON sb))))"

subsection \<open>\<open>Serialize\<close>\<close>

text \<open>The two loops over \<open>m.OutputDocs\<close>: the sum of the sizes, and the copies.\<close>

fun sum_sizes :: "SimpleBSON list \<Rightarrow> int \<Rightarrow> int" where
  "sum_sizes [] sz = sz"
| "sum_sizes (d # ds) sz = sum_sizes ds (sz + sint (SimpleBSON.Size d))"

fun copy_docs :: "SimpleBSON list \<Rightarrow> int \<times> byte list \<Rightarrow> panic + (int \<times> byte list)" where
  "copy_docs [] st = Inr st"
| "copy_docs (d # ds) st = and_then (Copy d st) (copy_docs ds)"

text \<open>
  \<open>Serialize\<close> has a pointer receiver: it returns the buffer and leaves the message
  with its header size rewritten, so the model returns both.
\<close>

definition Serialize :: "CommandReplyMessage \<Rightarrow> panic + (CommandReplyMessage \<times> byte list)" where
  "Serialize m =
     (let size = 16;
          size = size + sint (SimpleBSON.Size (CommandReply m));
          size = size + sint (SimpleBSON.Size (Metadata m));
          size = sum_sizes (OutputDocs m) size;
          m = m\<lparr>header := (header m)\<lparr>MessageHeader.Size := word_of_int size\<rparr>\<rparr>
      in and_then (make_bytes size) (\<lambda>buf.
         and_then (WriteInto (header m) buf) (\<lambda>buf.
         and_then (Copy (CommandReply m) (16, buf)) (\<lambda>st.
         and_then (Copy (Metadata m) st) (\<lambda>st.
         and_then (copy_docs (OutputDocs m) st) (\<lambda>st.
         Inr (m, snd st)))))))"

subsection \<open>\<open>parseCommandReplyMessage\<close>\<close>

text \<open>
  The parser is modelled over the \<open>parseSimpleBSON\<close> it calls, so that its three
  cursor advances can be studied for any such function. The loop
  \<open>for len(buf) > 0\<close> need not end (a document of recorded size 0 leaves the cursor
  where it is), so it takes fuel: \<open>None\<close> is "still running". A result is a panic, or
  the Go pair of the message built so far and the error.
\<close>

type_synonym parse_result = "panic + (CommandReplyMessage \<times> error option)"

fun parseOutputDocs ::
  "(byte list \<Rightarrow> SimpleBSON \<times> error option) \<Rightarrow> nat \<Rightarrow> CommandReplyMessage \<Rightarrow> byte list
     \<Rightarrow> parse_result option" where
  "parseOutputDocs psb 0 rm buf = None"
| "parseOutputDocs psb (Suc n) rm buf =
     (if length buf > 0 then
        (case psb buf of
           (doc, Some e) \<Rightarrow> Some (Inr (rm, Some e))
         | (doc, None) \<Rightarrow>
             (case slice_from buf (sint (SimpleBSON.Size doc)) of
                Inl p \<Rightarrow> Some (Inl p)
              | Inr buf' \<Rightarrow>
                  parseOutputDocs psb n (rm\<lparr>OutputDocs := OutputDocs rm @ [doc]\<rparr>) buf'))
      else Some (Inr (rm, None)))"

definition parseCommandReplyMessage ::
  "(byte list \<Rightarrow> SimpleBSON \<times> error option) \<Rightarrow> nat \<Rightarrow> MessageHeader \<Rightarrow> byte list
     \<Rightarrow> parse_result option" where
  "parseCommandReplyMessage psb fuel hdr buf =
     (let rm = zeroCommandReplyMessage\<lparr>header := hdr\<rparr> in
      case psb buf of
        (doc, Some e) \<Rightarrow> Some (Inr (rm\<lparr>CommandReply := doc\<rparr>, Some e))
      | (doc, None) \<Rightarrow>
      let rm = rm\<lparr>CommandReply := doc\<rparr> in
      (case slice_from buf (sint (SimpleBSON.Size (CommandReply rm))) of
         Inl p \<Rightarrow> Some (Inl p)
       | Inr buf \<Rightarrow>
      (case psb buf of
        (doc, Some e) \<Rightarrow> Some (Inr (rm\<lparr>Metadata := doc\<rparr>, Some e))
      | (doc, None) \<Rightarrow>
      let rm = rm\<lparr>Metadata := doc\<rparr> in
      (case slice_from buf (sint (SimpleBSON.Size (Metadata rm))) of
         Inl p \<Rightarrow> Some (Inl p)
       | Inr buf \<Rightarrow> parseOutputDocs psb fuel rm buf))))"

subsection \<open>Notions the codec's properties are stated with\<close>

text \<open>The sum that \<open>Serialize\<close> is specified to store: 16 plus every document's size.\<close>

definition total_size :: "CommandReplyMessage \<Rightarrow> int" where
  "total_size m =
     16 + sint (SimpleBSON.Size (CommandReply m)) + sint (SimpleBSON.Size (Metadata m))
        + (\<Sum>d\<leftarrow>OutputDocs m. sint (SimpleBSON.Size d))"

definition all_docs :: "CommandReplyMessage \<Rightarrow> SimpleBSON list" where
  "all_docs m = CommandReply m # Metadata m # OutputDocs m"

text \<open>The sixteen bytes of a header on the wire.\<close>

definition header_bytes :: "MessageHeader \<Rightarrow> byte list" where
  "header_bytes h =
     writeInt32 (MessageHeader.Size h) @ writeInt32 (RequestID h)
     @ writeInt32 (ResponseTo h) @ writeInt32 (OpCode h)"

text \<open>
  A document whose recorded size is the length of its span, as claim C1 has it; and a
  document that moreover declares that size in its first four bytes, which is what a
  parser that reads the size from the bytes can give back.
\<close>

definition size_is_length :: "SimpleBSON \<Rightarrow> bool" where
  "size_is_length d = (sint (SimpleBSON.Size d) = int (length (BSON d)))"

definition declares_size :: "SimpleBSON \<Rightarrow> bool" where
  "declares_size d =
     (case BSON d of
        b0 # b1 # b2 # b3 # _ \<Rightarrow> le32 b0 b1 b2 b3 = SimpleBSON.Size d
      | _ \<Rightarrow> False)"

definition wf_doc :: "SimpleBSON \<Rightarrow> bool" where
  "wf_doc d = (size_is_length d \<and> declares_size d)"

text \<open>The size declared at the head of a buffer exceeds the buffer.\<close>

definition exceeds :: "byte list \<Rightarrow> bool" where
  "exceeds b =
     (case b of
        b0 # b1 # b2 # b3 # _ \<Rightarrow> int (length b) < sint (le32 b0 b1 b2 b3)
      | _ \<Rightarrow> False)"

text \<open>
  \<open>parses_to psb ds buf rest\<close>: reading documents off \<open>buf\<close> one after the other with
  \<open>psb\<close>, each advancing the cursor by its recorded size, gives \<open>ds\<close> and leaves \<open>rest\<close>.
\<close>

fun parses_to ::
  "(byte list \<Rightarrow> SimpleBSON \<times> error option) \<Rightarrow> SimpleBSON list \<Rightarrow> byte list \<Rightarrow> byte list \<Rightarrow> bool" where
  "parses_to psb [] buf rest = (buf = rest)"
| "parses_to psb (d # ds) buf rest =
     (psb buf = (d, None) \<and> parses_to psb ds (drop (nat (sint (SimpleBSON.Size d))) buf) rest)"

text \<open>
  What \<open>parseCommandReplyMessage\<close> needs of the \<open>parseSimpleBSON\<close> it calls, in the
  spec's words: a document is returned only when its size does not exceed the
  remaining buffer (and is a size: not negative), and every error is MalformedMessage.
\<close>

definition within_buffer :: "(byte list \<Rightarrow> SimpleBSON \<times> error option) \<Rightarrow> bool" where
  "within_buffer psb =
     (\<forall>b d. psb b = (d, None) \<longrightarrow>
        0 \<le> sint (SimpleBSON.Size d) \<and> sint (SimpleBSON.Size d) \<le> int (length b))"

definition only_malformed :: "(byte list \<Rightarrow> SimpleBSON \<times> error option) \<Rightarrow> bool" where
  "only_malformed psb = (\<forall>b d e. psb b = (d, Some e) \<longrightarrow> e = MalformedMessage)"

section \<open>The test interceptor: \<open>MyInterceptor.InterceptClientToMongo\<close>\<close>

text \<open>
  A decoded document (\<open>bson.D\<close>) is an ordered sequence of keys and values; the values
  of a query are of any kind, so the sequence is polymorphic in them. Of a
  \<open>QueryMessage\<close> the interceptor reads \<open>Namespace\<close> and reads and writes \<open>Query\<close>; its
  other fields are the extension of the record. A \<open>Message\<close> is a \<open>*QueryMessage\<close> or a
  message of another kind, which the type switch passes through. The raw document type
  is left open (\<open>SimpleBSON\<close> in the repository): the codec between raw and decoded
  documents is not in the sources at hand.
\<close>

type_synonym 'v doc = "(string \<times> 'v) list"

record 'r QueryMessage =
  Namespace :: string
  Query :: 'r

datatype ('r, 'x, 'o) Message =
    MsgQuery "('r, 'x) QueryMessage_scheme"
  | MsgOther 'o

text \<open>
  Modelled from the spec: \<open>BSONIndexOf\<close> is missing from the sources. The spec has
  \<open>indexOfKey(doc, key)\<close> give the "index or not-found", by a "linear scan over the
  decoded key/value sequence, first match wins, case-sensitive exact key match";
  not-found is a negative index, as the caller's test \<open>idx >= 0\<close> has it.
\<close>

fun BSONIndexOf :: "'v doc \<Rightarrow> string \<Rightarrow> int" where
  "BSONIndexOf [] name = -1"
| "BSONIndexOf (e # es) name =
     (if fst e = name then 0
      else (let i = BSONIndexOf es name in if i < 0 then -1 else i + 1))"

text \<open>
  The parts of the call that are not in the sources are parameters:
  \<open>NamespaceIsCommand\<close> (a test on the namespace), \<open>ToBSOND\<close> (the decoder, which may
  fail), \<open>strings.ToLower\<close> (Go's, Unicode-aware) and \<open>SimpleBSONConvert\<close> (the encoder,
  whose failure makes the interceptor panic). The result is a panic or the Go triple
  of message, response interceptor (always nil) and error (always nil). The slice
  expression \<open>append(query[:idx], query[idx+1:]...)\<close> is within range for the index
  that \<open>BSONIndexOf\<close> gives.
\<close>

definition remove_at :: "'a list \<Rightarrow> int \<Rightarrow> 'a list" where
  "remove_at query idx = take (nat idx) query @ drop (nat (idx + 1)) query"

definition InterceptClientToMongo ::
  "(string \<Rightarrow> bool) \<Rightarrow> ('r \<Rightarrow> 'v doc \<times> error option) \<Rightarrow> (string \<Rightarrow> string)
     \<Rightarrow> ('v doc \<Rightarrow> 'r \<times> error option) \<Rightarrow> ('r, 'x, 'o) Message
     \<Rightarrow> panic + (('r, 'x, 'o) Message \<times> unit option \<times> error option)" where
  "InterceptClientToMongo NamespaceIsCommand ToBSOND ToLower SimpleBSONConvert m =
     (case m of
        MsgQuery mm \<Rightarrow>
          if \<not> NamespaceIsCommand (Namespace mm) then Inr (m, None, None)
          else
            (case ToBSOND (Query mm) of (query, e) \<Rightarrow>
               if e \<noteq> None \<or> length query = 0 then Inr (m, None, None)
               else
                 (let cmdName = ToLower (fst (query ! 0)) in
                  if cmdName \<noteq> ''ismaster'' then Inr (m, None, None)
                  else
                    (let idx = BSONIndexOf query ''client'';
                         query = (if idx \<ge> 0 then remove_at query idx else query)
                     in case SimpleBSONConvert query of
                          (qb, Some e) \<Rightarrow> Inl ExplicitPanic
                        | (qb, None) \<Rightarrow> Inr (MsgQuery (mm\<lparr>Query := qb\<rparr>), None, None))))
      | MsgOther _ \<Rightarrow> Inr (m, None, None))"

text \<open>
  The notions the interceptor's property is stated with: the document without the first element of a given key, and ASCII lower-casing, which is
  what \<open>strings.ToLower\<close> does on ASCII strings.
\<close>

fun remove_first_key :: "string \<Rightarrow> 'v doc \<Rightarrow> 'v doc" where
  "remove_first_key name [] = []"
| "remove_first_key name (e # es) =
     (if fst e = name then es else e # remove_first_key name es)"

definition ascii_lower :: "char \<Rightarrow> char" where
  "ascii_lower c =
     (let n = (of_char c :: nat) in if 65 \<le> n \<and> n \<le> 90 then char_of (n + 32) else c)"

definition ToLowerASCII :: "string \<Rightarrow> string" where
  "ToLowerASCII s = map ascii_lower s"

text \<open>
  The message the claim singles out: a QueryMessage on a command namespace whose query
  decodes to a document whose first key, lower-cased, is \<open>ismaster\<close>.
\<close>

definition is_handshake ::
  "(string \<Rightarrow> bool) \<Rightarrow> ('r \<Rightarrow> 'v doc \<times> error option) \<Rightarrow> (string \<Rightarrow> string)
     \<Rightarrow> ('r, 'x, 'o) Message \<Rightarrow> bool" where
  "is_handshake NamespaceIsCommand ToBSOND ToLower m =
     (case m of
        MsgQuery mm \<Rightarrow>
          NamespaceIsCommand (Namespace mm)
          \<and> (case ToBSOND (Query mm) of
                (query, e) \<Rightarrow> e = None \<and> query \<noteq> [] \<and> ToLower (fst (hd query)) = ''ismaster'')
      | MsgOther _ \<Rightarrow> False)"

section \<open>The backend connection pool and the retry policy of a session\<close>

subsection \<open>The pool\<close>

text \<open>
  Modelled from the spec: the connection pool is missing from the sources (only its
  test, \<open>TestProxySanity\<close>, is at hand). The spec's pool keeps "a set of idle reusable
  connections plus a monotonic created-count". \<open>acquire\<close> "returns an idle connection
  if one exists and passes a cheap liveness check; otherwise it opens a new socket,
  increments the created-count, and returns it. Creation failures surface as
  BackendUnavailable." \<open>release\<close> with healthy = true "returns the connection to the
  idle set"; with healthy = false it "closes and discards it". The created-count is
  "exposed read-only".

  What the backend does is not the pool's to decide: whether the idle connection
  passes the liveness check and whether a socket can be opened are arguments of
  \<open>acquire\<close>. A connection is named by the number of sockets opened before it. An
  idle connection that fails the liveness check is dropped. The pool's operations are
  taken one at a time, as its lock makes them.
\<close>

type_synonym conn = nat

record Pool =
  idle :: "conn list"
  created :: nat

datatype acquired = Reused conn | Opened conn | Unavailable error

text \<open>
  Modelled from the spec: the pool at startup and the read-only accessor of the
  created-count (\<open>proxy.GetConnectionsCreated()\<close> in the test), missing from the
  sources.
\<close>

definition NewPool :: Pool where
  "NewPool = \<lparr>idle = [], created = 0\<rparr>"

definition GetConnectionsCreated :: "Pool \<Rightarrow> nat" where
  "GetConnectionsCreated p = created p"

text \<open>
  Modelled from the spec: opening a socket, missing from the sources, "increments the
  created-count"; a failure to open one "surfaces as BackendUnavailable" and counts
  nothing.
\<close>

definition open_socket :: "bool \<Rightarrow> Pool \<Rightarrow> acquired \<times> Pool" where
  "open_socket dial_ok p =
     (if dial_ok then (Opened (created p), p\<lparr>created := created p + 1\<rparr>)
      else (Unavailable BackendUnavailable, p))"

text \<open>
  Modelled from the spec: \<open>acquire\<close>, missing from the sources, "returns an idle
  connection if one exists and passes a cheap liveness check; otherwise it opens a new
  socket".
\<close>

definition acquire :: "bool \<Rightarrow> bool \<Rightarrow> Pool \<Rightarrow> acquired \<times> Pool" where
  "acquire alive dial_ok p =
     (case idle p of
        c # cs \<Rightarrow>
          if alive then (Reused c, p\<lparr>idle := cs\<rparr>) else open_socket dial_ok (p\<lparr>idle := cs\<rparr>)
      | [] \<Rightarrow> open_socket dial_ok p)"

text \<open>
  Modelled from the spec: \<open>release\<close>, missing from the sources, returns a healthy
  connection "to the idle set for reuse" and "closes and discards" an unhealthy one.
\<close>

definition release :: "conn \<Rightarrow> bool \<Rightarrow> Pool \<Rightarrow> Pool" where
  "release c healthy p = (if healthy then p\<lparr>idle := c # idle p\<rparr> else p)"

text \<open>
  A sequence of pool operations, and the number of sockets it opens: the count of the
  acquisitions that answer \<open>Opened\<close>.
\<close>

datatype pool_op = Acquire bool bool | Release conn bool

fun apply_op :: "Pool \<Rightarrow> pool_op \<Rightarrow> Pool" where
  "apply_op p (Acquire alive dial_ok) = snd (acquire alive dial_ok p)"
| "apply_op p (Release c healthy) = release c healthy p"

fun opens_socket :: "Pool \<Rightarrow> pool_op \<Rightarrow> bool" where
  "opens_socket p (Acquire alive dial_ok) =
     (case fst (acquire alive dial_ok p) of Opened c \<Rightarrow> True | _ \<Rightarrow> False)"
| "opens_socket p (Release c healthy) = False"

fun run_ops :: "Pool \<Rightarrow> pool_op list \<Rightarrow> Pool" where
  "run_ops p [] = p"
| "run_ops p (x # xs) = run_ops (apply_op p x) xs"

fun sockets_opened :: "Pool \<Rightarrow> pool_op list \<Rightarrow> nat" where
  "sockets_opened p [] = 0"
| "sockets_opened p (x # xs) =
     (if opens_socket p x then 1 else 0) + sockets_opened (apply_op p x) xs"

subsection \<open>One request cycle of a session\<close>

text \<open>
  Modelled from the spec: the proxy session is missing from the sources. Steps 3 to 6
  of the spec's per-message cycle: "Acquire a pooled backend connection. Forward the
  message. Await the backend reply. Failure policy: if the backend connection errors
  or closes unexpectedly during steps 3-4, release it as unhealthy, acquire a fresh
  connection, and retry the forward exactly once; a second failure is escalated as a
  MongoError response to the client (connection itself stays open) rather than
  killing the session, unless the client connection itself is the one that failed."
  Then "write the reply to the client; release the backend connection as healthy". A
  failure of the client socket is "always fatal to the session"; a connection held
  then is released as unhealthy, as the spec has it for a session that closes
  mid-flight.

  What the backend does during one attempt (liveness of the idle connection, opening
  of a socket, the forward and its reply) and whether the client socket takes the
  reply are arguments. The cycle gives the state the session is left in, the events
  in order, and the pool.
\<close>

record backend_io =
  alive :: bool
  dial_ok :: bool
  io_ok :: bool









text \<open>
  The pool's invariant: the idle connections are distinct and were all opened by
  this pool.
\<close>

definition pool_ok :: "Pool \<Rightarrow> bool" where
  "pool_ok p = (distinct (idle p) \<and> (\<forall>c \<in> set (idle p). c < created p))"

section \<open>Properties of the error model\<close>

lemma ToBSON_Some:
  "err me = Some msg \<Longrightarrow>
   ToBSON me = [(''ok'', BInt 0), (''errmsg'', BString msg),
                (''code'', BInt (code me)), (''codeName'', BString (codeName me))]"
  by (simp add: ToBSON_def)

lemma ToBSON_None:
  "err me = None \<Longrightarrow>
   ToBSON me = [(''ok'', BInt 0), (''code'', BInt (code me)), (''codeName'', BString (codeName me))]"
  by (simp add: ToBSON_def)

lemma keys_ToBSON:
  "keys (ToBSON me) =
     (case err me of None \<Rightarrow> [''ok'', ''code'', ''codeName'']
                   | Some msg \<Rightarrow> [''ok'', ''errmsg'', ''code'', ''codeName''])"
  by (cases "err me") (simp_all add: ToBSON_Some ToBSON_None keys_def)

lemma show_nat_digit: "n < 10 \<Longrightarrow> show_nat n = [''0123456789'' ! n]"
  by (simp add: show_nat.simps)

text \<open>
  C5. For every MongoError, the document returned by \<open>ToBSON\<close> starts with \<open>{ok: 0}\<close>,
  holds an \<open>errmsg\<close> element exactly when the cause is not nil (its value is then the
  cause's message), and goes on with \<open>code\<close> and \<open>codeName\<close>, in that order.
\<close>

theorem ToBSON_shape:
  "hd (ToBSON me) = (''ok'', BInt 0)
   \<and> ((''errmsg'' \<in> set (keys (ToBSON me))) = (err me \<noteq> None))
   \<and> (\<forall>msg. err me = Some msg \<longrightarrow>
          ToBSON me = [(''ok'', BInt 0), (''errmsg'', BString msg),
                       (''code'', BInt (code me)), (''codeName'', BString (codeName me))])
   \<and> (err me = None \<longrightarrow>
          ToBSON me = [(''ok'', BInt 0),
                       (''code'', BInt (code me)), (''codeName'', BString (codeName me))])"
proof (cases "err me")
  case None
  then show ?thesis by (simp add: ToBSON_None keys_def)
next
  case (Some msg)
  then show ?thesis by (simp add: ToBSON_Some keys_def)
qed

theorem ToBSON_shape_witness:
  "ToBSON (NewMongoError (Some ''boom'') 11 ''Oops'')
     = [(''ok'', BInt 0), (''errmsg'', BString ''boom''),
        (''code'', BInt 11), (''codeName'', BString ''Oops'')]
   \<and> ToBSON (NewMongoError None 11 ''Oops'')
     = [(''ok'', BInt 0), (''code'', BInt 11), (''codeName'', BString ''Oops'')]"
  using ToBSON_shape [of "NewMongoError (Some ''boom'') 11 ''Oops''"]
        ToBSON_shape [of "NewMongoError None 11 ''Oops''"]
  by (simp add: NewMongoError_def)

text \<open>
  C4, as the claim states it, fails: a MongoError built with a non-empty \<open>errInfo\<close>
  renders to a document with no \<open>errInfo\<close> element.
\<close>

theorem ToBSON_errInfo_counterexample:
  "GetErrorInfo (NewMongoErrorWithInfo (Some ''boom'') 2 ''BadValue'' ''details'') = ''details''
   \<and> ''details'' \<noteq> ''''
   \<and> ''errInfo'' \<notin> set (keys (ToBSON (NewMongoErrorWithInfo (Some ''boom'') 2 ''BadValue'' ''details'')))
   \<and> ToBSON (NewMongoErrorWithInfo (Some ''boom'') 2 ''BadValue'' ''details'')
       = [(''ok'', BInt 0), (''errmsg'', BString ''boom''),
          (''code'', BInt 2), (''codeName'', BString ''BadValue'')]"
  by (simp add: NewMongoErrorWithInfo_def GetErrorInfo_def ToBSON_def keys_def)

text \<open>
  C4, amended. For every MongoError, the document returned by \<open>ToBSON\<close> has no
  \<open>errInfo\<close> element, whether the \<open>errInfo\<close> string is empty or not: the document does
  not depend on \<open>errInfo\<close> at all, and the string is read back by \<open>GetErrorInfo\<close> only.
\<close>

theorem ToBSON_omits_errInfo:
  "''errInfo'' \<notin> set (keys (ToBSON me))
   \<and> ToBSON (me\<lparr>errInfo := i\<rparr>) = ToBSON me
   \<and> ToBSON (NewMongoErrorWithInfo e c n i) = ToBSON (NewMongoError e c n)
   \<and> GetErrorInfo (NewMongoErrorWithInfo e c n i) = i"
  by (cases "err me")
     (simp_all add: ToBSON_def keys_def NewMongoErrorWithInfo_def NewMongoError_def
        GetErrorInfo_def)

text \<open>
  C10. \<open>Error\<close> returns the formatted string exactly when the cause is not nil; on a
  nil cause it panics, although \<open>NewMongoError\<close> accepts a nil cause and \<open>ToBSON\<close>,
  \<open>GetCode\<close>, \<open>GetCodeName\<close> and \<open>GetErrorInfo\<close> all work on it.
\<close>

theorem Error_needs_cause:
  "(\<forall>msg. err me = Some msg \<longrightarrow>
       Error me = Inr (''code='' @ show_int (code me) @ '' codeName='' @ codeName me
                       @ '' errmsg = '' @ msg))
   \<and> ((\<exists>s. Error me = Inr s) = (err me \<noteq> None))
   \<and> Error (NewMongoError None c n) = Inl NilPointerDereference
   \<and> ToBSON (NewMongoError None c n)
       = [(''ok'', BInt 0), (''code'', BInt c), (''codeName'', BString n)]
   \<and> GetCode (NewMongoError None c n) = c
   \<and> GetCodeName (NewMongoError None c n) = n
   \<and> GetErrorInfo (NewMongoError None c n) = ''''"
  by (cases "err me")
     (simp_all add: Error_def NewMongoError_def ToBSON_def GetCode_def GetCodeName_def
        GetErrorInfo_def)

theorem Error_needs_cause_witness:
  "Error (NewMongoError (Some ''boom'') 11 ''Oops'') = Inr ''code=11 codeName=Oops errmsg = boom''
   \<and> Error (NewMongoError None 11 ''Oops'') = Inl NilPointerDereference"
  using Error_needs_cause [of "NewMongoError (Some ''boom'') 11 ''Oops''" 11 "''Oops''"]
  by (simp add: NewMongoError_def show_int_def show_nat.simps [of 11] show_nat_digit)

section \<open>Properties of the wire codec\<close>

subsection \<open>\<open>Serialize\<close>: sizes and buffer\<close>

lemma sum_sizes_eq: "sum_sizes ds sz = sz + (\<Sum>d\<leftarrow>ds. sint (SimpleBSON.Size d))"
  by (induction ds arbitrary: sz) simp_all

lemma length_copy_at: "loc \<le> length buf \<Longrightarrow> length (copy_at buf loc src) = length buf"
  by (auto simp: copy_at_def Let_def min_def)

lemma Copy_ok:
  "0 \<le> loc \<Longrightarrow> loc \<le> int (length buf) \<Longrightarrow>
   Copy sb (loc, buf) = Inr (loc + sint (SimpleBSON.Size sb), copy_at buf (nat loc) (BSON sb))"
  by (simp add: Copy_def slice_from_def and_then_def)

lemma copy_docs_ok:
  "\<forall>d \<in> set ds. 0 \<le> sint (SimpleBSON.Size d) \<Longrightarrow> 0 \<le> loc \<Longrightarrow>
   loc + (\<Sum>d\<leftarrow>ds. sint (SimpleBSON.Size d)) \<le> int (length buf) \<Longrightarrow>
   \<exists>buf'. copy_docs ds (loc, buf) = Inr (loc + (\<Sum>d\<leftarrow>ds. sint (SimpleBSON.Size d)), buf')
          \<and> length buf' = length buf"
proof (induction ds arbitrary: loc buf)
  case Nil
  then show ?case by simp
next
  case (Cons d ds)
  let ?s = "sint (SimpleBSON.Size d)"
  let ?r = "\<Sum>d\<leftarrow>ds. sint (SimpleBSON.Size d)"
  from Cons.prems have d0: "0 \<le> ?s" and ds0: "\<forall>d \<in> set ds. 0 \<le> sint (SimpleBSON.Size d)"
    by simp_all
  have r0: "0 \<le> ?r" using ds0 by (intro sum_list_nonneg) auto
  have le: "loc \<le> int (length buf)" using Cons.prems(3) d0 r0 by simp
  have len: "length (copy_at buf (nat loc) (BSON d)) = length buf"
    using le Cons.prems(2) by (simp add: length_copy_at)
  have step: "Copy d (loc, buf) = Inr (loc + ?s, copy_at buf (nat loc) (BSON d))"
    using Cons.prems(2) le by (rule Copy_ok)
  from Cons.IH [OF ds0, of "loc + ?s" "copy_at buf (nat loc) (BSON d)"]
  obtain buf' where "copy_docs ds (loc + ?s, copy_at buf (nat loc) (BSON d)) = Inr (loc + ?s + ?r, buf')"
    and "length buf' = length buf"
    using Cons.prems(2,3) d0 len by (auto simp: add.assoc)
  then show ?case using step by (simp add: and_then_def add.assoc)
qed

lemma Serialize_stale: "Serialize (m\<lparr>header := (header m)\<lparr>MessageHeader.Size := s\<rparr>\<rparr>) = Serialize m"
  by (simp add: Serialize_def Let_def)

lemma Serialize_returns:
  assumes nn: "\<forall>d \<in> set (CommandReply m # Metadata m # OutputDocs m). 0 \<le> sint (SimpleBSON.Size d)"
  shows "\<exists>buf. Serialize m
            = Inr (m\<lparr>header := (header m)\<lparr>MessageHeader.Size := word_of_int (total_size m)\<rparr>\<rparr>, buf)
          \<and> int (length buf) = total_size m"
proof -
  let ?c = "sint (SimpleBSON.Size (CommandReply m))"
  let ?d = "sint (SimpleBSON.Size (Metadata m))"
  let ?r = "\<Sum>d\<leftarrow>OutputDocs m. sint (SimpleBSON.Size d)"
  let ?T = "total_size m"
  let ?h = "(header m)\<lparr>MessageHeader.Size := word_of_int ?T\<rparr>"
  have c0: "0 \<le> ?c" and d0: "0 \<le> ?d"
    and ds0: "\<forall>d \<in> set (OutputDocs m). 0 \<le> sint (SimpleBSON.Size d)"
    using nn by simp_all
  have r0: "0 \<le> ?r" using ds0 by (intro sum_list_nonneg) auto
  have T: "?T = 16 + ?c + ?d + ?r" by (simp add: total_size_def)
  have T16: "16 \<le> ?T" using c0 d0 r0 T by simp
  define b0 where "b0 = replicate (nat ?T) (0::byte)"
  have lb0: "int (length b0) = ?T" using T16 by (simp add: b0_def)
  have mk: "make_bytes ?T = Inr b0" using T16 by (simp add: make_bytes_def b0_def)
  define b1 where "b1 = writeInt32 (MessageHeader.Size ?h) @ writeInt32 (RequestID ?h)
                @ writeInt32 (ResponseTo ?h) @ writeInt32 (OpCode ?h) @ drop 16 b0"
  have wi: "WriteInto ?h b0 = Inr b1" using lb0 T16 by (simp add: WriteInto_def b1_def)
  have lb1: "int (length b1) = ?T" using lb0 T16 by (simp add: b1_def writeInt32_def)
  define b2 where "b2 = copy_at b1 16 (BSON (CommandReply m))"
  have c1: "Copy (CommandReply m) (16, b1) = Inr (16 + ?c, b2)"
    using Copy_ok [of 16 b1 "CommandReply m"] lb1 T16 by (simp add: b2_def)
  have lb2: "int (length b2) = ?T" using lb1 T16 by (simp add: b2_def length_copy_at)
  define b3 where "b3 = copy_at b2 (nat (16 + ?c)) (BSON (Metadata m))"
  have c2: "Copy (Metadata m) (16 + ?c, b2) = Inr (16 + ?c + ?d, b3)"
    using Copy_ok [of "16 + ?c" b2 "Metadata m"] lb2 T c0 d0 r0 by (simp add: b3_def)
  have lb3: "int (length b3) = ?T"
    using lb2 T c0 d0 r0 by (simp add: b3_def length_copy_at)
  obtain b4 where c3: "copy_docs (OutputDocs m) (16 + ?c + ?d, b3) = Inr (16 + ?c + ?d + ?r, b4)"
    and lb4: "length b4 = length b3"
    using copy_docs_ok [OF ds0, of "16 + ?c + ?d" b3] lb3 T c0 d0 by auto
  have "Serialize m = Inr (m\<lparr>header := ?h\<rparr>, b4)"
    using mk wi c1 c2 c3
    by (simp add: Serialize_def Let_def sum_sizes_eq and_then_def total_size_def)
  then show ?thesis using lb4 lb3 by auto
qed

subsection \<open>\<open>Serialize\<close>: the bytes written\<close>

lemma copy_at_fit:
  "length zs = length src \<Longrightarrow> copy_at (pre @ zs @ post) (length pre) src = pre @ src @ post"
  by (simp add: copy_at_def Let_def)

lemma Copy_fit:
  assumes "size_is_length d" and "length zs = length (BSON d)"
  shows "Copy d (int (length pre), pre @ zs @ post)
           = Inr (int (length (pre @ BSON d)), pre @ BSON d @ post)"
  using assms copy_at_fit [of zs "BSON d" pre post]
  by (simp add: Copy_def slice_from_def and_then_def size_is_length_def)

lemma copy_docs_fit:
  "\<forall>d \<in> set ds. size_is_length d \<Longrightarrow> length zs = length (concat (map BSON ds)) \<Longrightarrow>
   copy_docs ds (int (length pre), pre @ zs)
     = Inr (int (length (pre @ concat (map BSON ds))), pre @ concat (map BSON ds))"
proof (induction ds arbitrary: pre zs)
  case Nil
  then show ?case by simp
next
  case (Cons d ds)
  let ?k = "length (BSON d)"
  from Cons.prems have sd: "size_is_length d" and sds: "\<forall>d \<in> set ds. size_is_length d"
    by simp_all
  have lt: "length (take ?k zs) = ?k" and ld: "length (drop ?k zs) = length (concat (map BSON ds))"
    using Cons.prems(2) by simp_all
  have step: "Copy d (int (length pre), pre @ zs)
          = Inr (int (length (pre @ BSON d)), (pre @ BSON d) @ drop ?k zs)"
    using Copy_fit [OF sd lt, of pre "drop ?k zs"]
    unfolding append_take_drop_id by simp
  show ?case
    using step Cons.IH [OF sds ld, of "pre @ BSON d"]
    by (simp add: and_then_def)
qed

lemma sum_sizes_length:
  "\<forall>d \<in> set ds. size_is_length d \<Longrightarrow>
   (\<Sum>d\<leftarrow>ds. sint (SimpleBSON.Size d)) = int (length (concat (map BSON ds)))"
  by (induction ds) (simp_all add: size_is_length_def)

lemma length_header_bytes: "length (header_bytes h) = 16"
  by (simp add: header_bytes_def writeInt32_def)

lemma Serialize_wf:
  assumes wf: "\<forall>d \<in> set (all_docs m). size_is_length d"
  shows "Serialize m
           = Inr (m\<lparr>header := (header m)\<lparr>MessageHeader.Size := word_of_int (total_size m)\<rparr>\<rparr>,
                  header_bytes ((header m)\<lparr>MessageHeader.Size := word_of_int (total_size m)\<rparr>)
                  @ concat (map BSON (all_docs m)))"
proof -
  let ?T = "total_size m"
  let ?h = "(header m)\<lparr>MessageHeader.Size := word_of_int ?T\<rparr>"
  let ?body = "concat (map BSON (all_docs m))"
  let ?zs = "replicate (length ?body) (0::byte)"
  have T: "?T = 16 + int (length ?body)"
    using sum_sizes_length [OF wf] by (simp add: total_size_def all_docs_def)
  have mk: "make_bytes ?T = Inr (replicate 16 0 @ ?zs)"
    by (simp add: make_bytes_def T nat_add_distrib replicate_add)
  have wi: "WriteInto ?h (replicate 16 0 @ ?zs) = Inr (header_bytes ?h @ ?zs)"
    by (simp add: WriteInto_def header_bytes_def)
  have "copy_docs (all_docs m) (int (length (header_bytes ?h)), header_bytes ?h @ ?zs)
          = Inr (int (length (header_bytes ?h @ ?body)), header_bytes ?h @ ?body)"
    by (rule copy_docs_fit [OF wf]) simp
  then have cp: "copy_docs (all_docs m) (16, header_bytes ?h @ ?zs)
          = Inr (int (length (header_bytes ?h @ ?body)), header_bytes ?h @ ?body)"
    by (simp add: length_header_bytes)
  have unf: "Serialize m =
      and_then (make_bytes ?T) (\<lambda>buf. and_then (WriteInto ?h buf) (\<lambda>buf.
        and_then (copy_docs (all_docs m) (16, buf)) (\<lambda>st. Inr (m\<lparr>header := ?h\<rparr>, snd st))))"
    by (simp add: Serialize_def Let_def sum_sizes_eq total_size_def all_docs_def and_then_def
          split: sum.splits)
  show ?thesis
    unfolding unf using mk wi cp by (simp add: and_then_def)
qed

subsection \<open>\<open>parseCommandReplyMessage\<close>: the cursor stays within the buffer\<close>

lemma psb_within: "within_buffer parseSimpleBSON"
  by (auto simp: within_buffer_def parseSimpleBSON_def Let_def split: list.splits if_splits)

lemma psb_only_malformed: "only_malformed parseSimpleBSON"
  by (auto simp: only_malformed_def parseSimpleBSON_def Let_def split: list.splits if_splits)

lemma within_bufferD:
  "within_buffer psb \<Longrightarrow> psb b = (d, None) \<Longrightarrow>
   0 \<le> sint (SimpleBSON.Size d) \<and> sint (SimpleBSON.Size d) \<le> int (length b)"
  unfolding within_buffer_def by blast

lemma parseOutputDocs_no_panic:
  "within_buffer psb \<Longrightarrow> parseOutputDocs psb fuel rm buf \<noteq> Some (Inl p)"
proof (induction fuel arbitrary: rm buf)
  case 0
  then show ?case by simp
next
  case (Suc n)
  show ?case
  proof (cases "psb buf")
    case (Pair doc e)
    show ?thesis
    proof (cases e)
      case None
      with Pair Suc.prems have "0 \<le> sint (SimpleBSON.Size doc)" "sint (SimpleBSON.Size doc) \<le> int (length buf)"
        by (auto simp: within_buffer_def)
      then show ?thesis using Pair None Suc.IH [OF Suc.prems]
        by (simp add: slice_from_def)
    next
      case (Some a)
      then show ?thesis using Pair by simp
    qed
  qed
qed

lemma parseOutputDocs_errors:
  "only_malformed psb \<Longrightarrow> parseOutputDocs psb fuel rm buf = Some (Inr (rm', Some e)) \<Longrightarrow> e = MalformedMessage"
proof (induction fuel arbitrary: rm buf)
  case 0
  then show ?case by simp
next
  case (Suc n)
  show ?case
  proof (cases "psb buf")
    case (Pair doc eo)
    show ?thesis
    proof (cases eo)
      case None
      then show ?thesis using Pair Suc.prems Suc.IH [OF Suc.prems(1)]
        by (auto simp: split: if_splits sum.splits)
    next
      case (Some a)
      then show ?thesis using Pair Suc.prems by (auto simp: only_malformed_def split: if_splits)
    qed
  qed
qed

lemma parse_no_panic:
  assumes "within_buffer psb"
  shows "parseCommandReplyMessage psb fuel h buf \<noteq> Some (Inl p)"
proof (cases "psb buf")
  case (Pair c e1)
  show ?thesis
  proof (cases e1)
    case (Some a)
    then show ?thesis using Pair by (simp add: parseCommandReplyMessage_def)
  next
    case None
    with Pair assms have c: "0 \<le> sint (SimpleBSON.Size c)" "sint (SimpleBSON.Size c) \<le> int (length buf)"
      by (auto simp: within_buffer_def)
    let ?b1 = "drop (nat (sint (SimpleBSON.Size c))) buf"
    show ?thesis
    proof (cases "psb ?b1")
      case (Pair md e2)
      note P2 = this
      show ?thesis
      proof (cases e2)
        case (Some a)
        then show ?thesis using \<open>psb buf = (c, e1)\<close> None P2 c
          by (simp add: parseCommandReplyMessage_def slice_from_def)
      next
        case None
        note N2 = this
        have d: "0 \<le> sint (SimpleBSON.Size md)" "sint (SimpleBSON.Size md) \<le> int (length ?b1)"
          using within_bufferD [OF assms, of ?b1 md] P2 N2 by simp_all
        show ?thesis using \<open>psb buf = (c, e1)\<close> \<open>e1 = None\<close> P2 N2 c d
            parseOutputDocs_no_panic [OF assms]
          by (simp add: parseCommandReplyMessage_def slice_from_def)
      qed
    qed
  qed
qed

subsection \<open>\<open>parseCommandReplyMessage\<close> on the modelled \<open>parseSimpleBSON\<close>\<close>

lemma psb_wf: 
  assumes "wf_doc d"
  shows "parseSimpleBSON (BSON d @ rest) = (d, None)"
proof -
  from assms obtain b0 b1 b2 b3 bs where B: "BSON d = b0 # b1 # b2 # b3 # bs"
    and sz: "le32 b0 b1 b2 b3 = SimpleBSON.Size d"
    by (auto simp: wf_doc_def declares_size_def split: list.splits)
  from assms have len: "sint (SimpleBSON.Size d) = int (length (BSON d))"
    by (simp add: wf_doc_def size_is_length_def)
  have "take (nat (sint (SimpleBSON.Size d))) (BSON d @ rest) = BSON d"
    using len by simp
  then show ?thesis using B sz len
    by (simp add: parseSimpleBSON_def Let_def)
qed

lemma psb_None:
  assumes "parseSimpleBSON b = (d, None)"
  shows "size_is_length d \<and> b = BSON d @ drop (nat (sint (SimpleBSON.Size d))) b \<and> b \<noteq> []"
proof -
  from assms obtain b0 b1 b2 b3 bs where b: "b = b0 # b1 # b2 # b3 # bs"
    by (auto simp: parseSimpleBSON_def split: list.splits)
  let ?s = "le32 b0 b1 b2 b3"
  from assms b have rng: "0 \<le> sint ?s" "sint ?s \<le> int (length b)"
    and d: "d = \<lparr>SimpleBSON.Size = ?s, BSON = take (nat (sint ?s)) b\<rparr>"
    by (auto simp: parseSimpleBSON_def Let_def split: if_splits)
  have "length (BSON d) = nat (sint ?s)" using rng d by simp
  then have "size_is_length d" using rng d by (simp add: size_is_length_def)
  moreover have "b = BSON d @ drop (nat (sint (SimpleBSON.Size d))) b" using d by simp
  ultimately show ?thesis using b by simp
qed

lemma psb_exceeds: "exceeds b \<Longrightarrow> parseSimpleBSON b = (zeroSimpleBSON, Some MalformedMessage)"
  by (auto simp: exceeds_def parseSimpleBSON_def Let_def split: list.splits)

lemma exceeds_nonempty: "exceeds b \<Longrightarrow> b \<noteq> []"
  by (auto simp: exceeds_def)

lemma wf_doc_nonempty: "wf_doc d \<Longrightarrow> BSON d \<noteq> []"
  by (auto simp: wf_doc_def declares_size_def split: list.splits)

lemma slice_wf: "size_is_length d \<Longrightarrow> slice_from (BSON d @ rest) (sint (SimpleBSON.Size d)) = Inr rest"
  by (simp add: slice_from_def size_is_length_def)

lemma loop_wf:
  "\<forall>d \<in> set ds. wf_doc d \<Longrightarrow> length ds < fuel \<Longrightarrow>
   parseOutputDocs parseSimpleBSON fuel rm (concat (map BSON ds))
     = Some (Inr (rm\<lparr>OutputDocs := OutputDocs rm @ ds\<rparr>, None))"
proof (induction ds arbitrary: fuel rm)
  case Nil
  then obtain n where "fuel = Suc n" by (cases fuel) auto
  then show ?case by simp
next
  case (Cons d ds)
  then obtain n where f: "fuel = Suc n" and n: "length ds < n" by (cases fuel) auto
  from Cons.prems have wd: "wf_doc d" and wds: "\<forall>d \<in> set ds. wf_doc d" by simp_all
  have ne: "BSON d \<noteq> []" using wd by (rule wf_doc_nonempty)
  have sl: "slice_from (BSON d @ concat (map BSON ds)) (sint (SimpleBSON.Size d)) = Inr (concat (map BSON ds))"
    using wd by (simp add: slice_wf wf_doc_def)
  show ?case
    using f ne psb_wf [OF wd, of "concat (map BSON ds)"] sl Cons.IH [OF wds n]
    by simp
qed

lemma loop_exceeds:
  "parses_to parseSimpleBSON ds buf rest \<Longrightarrow> exceeds rest \<Longrightarrow> length ds < fuel \<Longrightarrow>
   \<exists>rm'. parseOutputDocs parseSimpleBSON fuel rm buf = Some (Inr (rm', Some MalformedMessage))"
proof (induction ds arbitrary: fuel rm buf)
  case Nil
  then obtain n where "fuel = Suc n" by (cases fuel) auto
  then show ?case using Nil.prems psb_exceeds [of rest] exceeds_nonempty [of rest] by simp
next
  case (Cons d ds)
  then obtain n where f: "fuel = Suc n" and n: "length ds < n" by (cases fuel) auto
  let ?b = "drop (nat (sint (SimpleBSON.Size d))) buf"
  from Cons.prems have p: "parseSimpleBSON buf = (d, None)"
    and r: "parses_to parseSimpleBSON ds ?b rest" by simp_all
  have ne: "buf \<noteq> []" using psb_None [OF p] by simp
  have rng: "0 \<le> sint (SimpleBSON.Size d) \<and> sint (SimpleBSON.Size d) \<le> int (length buf)"
    using within_bufferD [OF psb_within p] .
  obtain rm' where "parseOutputDocs parseSimpleBSON n (rm\<lparr>OutputDocs := OutputDocs rm @ [d]\<rparr>) ?b
        = Some (Inr (rm', Some MalformedMessage))"
    using Cons.IH [OF r Cons.prems(2) n] by blast
  then show ?case using f ne p rng by (simp add: slice_from_def)
qed

lemma parse_wf:
  assumes wf: "\<forall>d \<in> set (c # md # outs). wf_doc d" and fuel: "length outs < fuel"
  shows "parseCommandReplyMessage parseSimpleBSON fuel h (BSON c @ BSON md @ concat (map BSON outs))
           = Some (Inr (\<lparr>header = h, CommandReply = c, Metadata = md, OutputDocs = outs\<rparr>, None))"
proof -
  from wf have wc: "wf_doc c" and wm: "wf_doc md" and wo: "\<forall>d \<in> set outs. wf_doc d" by simp_all
  have s1: "slice_from (BSON c @ BSON md @ concat (map BSON outs)) (sint (SimpleBSON.Size c))
              = Inr (BSON md @ concat (map BSON outs))"
    using wc by (simp add: slice_wf wf_doc_def)
  have s2: "slice_from (BSON md @ concat (map BSON outs)) (sint (SimpleBSON.Size md))
              = Inr (concat (map BSON outs))"
    using wm by (simp add: slice_wf wf_doc_def)
  show ?thesis
    using psb_wf [OF wc, of "BSON md @ concat (map BSON outs)"]
          psb_wf [OF wm, of "concat (map BSON outs)"] s1 s2
          loop_wf [OF wo fuel]
    by (simp add: parseCommandReplyMessage_def zeroCommandReplyMessage_def)
qed

lemma parse_exceeds:
  assumes p: "parses_to parseSimpleBSON ds buf rest" and ex: "exceeds rest"
    and fuel: "length ds < fuel + 2"
  shows "\<exists>rm. parseCommandReplyMessage parseSimpleBSON fuel h buf = Some (Inr (rm, Some MalformedMessage))"
proof (cases ds)
  case Nil
  then show ?thesis using p psb_exceeds [OF ex] by (simp add: parseCommandReplyMessage_def)
next
  case (Cons c ds1)
  note C1 = this
  let ?b1 = "drop (nat (sint (SimpleBSON.Size c))) buf"
  from p C1 have pc: "parseSimpleBSON buf = (c, None)" and p1: "parses_to parseSimpleBSON ds1 ?b1 rest"
    by simp_all
  have rc: "0 \<le> sint (SimpleBSON.Size c) \<and> sint (SimpleBSON.Size c) \<le> int (length buf)"
    using within_bufferD [OF psb_within pc] .
  show ?thesis
  proof (cases ds1)
    case Nil
    then show ?thesis using pc p1 rc psb_exceeds [OF ex]
      by (simp add: parseCommandReplyMessage_def slice_from_def)
  next
    case (Cons md outs)
    let ?b2 = "drop (nat (sint (SimpleBSON.Size md))) ?b1"
    from p1 Cons have pm: "parseSimpleBSON ?b1 = (md, None)"
      and p2: "parses_to parseSimpleBSON outs ?b2 rest" by simp_all
    have rm: "0 \<le> sint (SimpleBSON.Size md) \<and> sint (SimpleBSON.Size md) \<le> int (length ?b1)"
      using within_bufferD [OF psb_within pm] .
    have "length outs < fuel" using fuel C1 Cons by simp
    from loop_exceeds [OF p2 ex this]
    obtain rm' where "parseOutputDocs parseSimpleBSON fuel
        (zeroCommandReplyMessage\<lparr>header := h, CommandReply := c, Metadata := md\<rparr>) ?b2
        = Some (Inr (rm', Some MalformedMessage))" by blast
    then show ?thesis using pc pm rc rm
      by (simp add: parseCommandReplyMessage_def slice_from_def)
  qed
qed

lemma parse_errors:
  assumes "only_malformed psb"
    and "parseCommandReplyMessage psb fuel h buf = Some (Inr (rm, Some e))"
  shows "e = MalformedMessage"
proof (cases "psb buf")
  case (Pair c e1)
  note P1 = this
  show ?thesis
  proof (cases e1)
    case (Some a)
    then show ?thesis using P1 assms by (auto simp: parseCommandReplyMessage_def only_malformed_def)
  next
    case None
    note N1 = this
    show ?thesis
    proof (cases "slice_from buf (sint (SimpleBSON.Size c))")
      case (Inl p)
      then show ?thesis using P1 N1 assms(2) by (simp add: parseCommandReplyMessage_def)
    next
      case (Inr b1)
      note S1 = this
      show ?thesis
      proof (cases "psb b1")
        case (Pair md e2)
        note P2 = this
        show ?thesis
        proof (cases e2)
          case (Some a)
          then show ?thesis using P1 N1 S1 P2 assms
            by (auto simp: parseCommandReplyMessage_def only_malformed_def)
        next
          case None
          show ?thesis
          proof (cases "slice_from b1 (sint (SimpleBSON.Size md))")
            case (Inl p)
            then show ?thesis using P1 N1 S1 P2 None assms(2)
              by (simp add: parseCommandReplyMessage_def)
          next
            case (Inr b2)
            then show ?thesis using P1 N1 S1 P2 None assms(2)
                parseOutputDocs_errors [OF assms(1)]
              by (simp add: parseCommandReplyMessage_def)
          qed
        qed
      qed
    qed
  qed
qed

lemma parses_to_wf:
  "\<forall>d \<in> set ds. wf_doc d \<Longrightarrow>
   parses_to parseSimpleBSON ds (concat (map BSON ds) @ rest) rest"
proof (induction ds)
  case Nil
  then show ?case by simp
next
  case (Cons d ds)
  then have wd: "wf_doc d" and wds: "\<forall>d \<in> set ds. wf_doc d" by simp_all
  have "drop (nat (sint (SimpleBSON.Size d))) (BSON d @ concat (map BSON ds) @ rest)
          = concat (map BSON ds) @ rest"
    using wd by (simp add: wf_doc_def size_is_length_def)
  then show ?case
    using psb_wf [OF wd, of "concat (map BSON ds) @ rest"] Cons.IH [OF wds] by simp
qed

lemma Copy_Inr_length:
  assumes "Copy sb (loc, buf) = Inr (loc', buf')"
  shows "length buf' = length buf"
proof -
  from assms have "0 \<le> loc" "loc \<le> int (length buf)" and b: "buf' = copy_at buf (nat loc) (BSON sb)"
    by (auto simp: Copy_def slice_from_def and_then_def split: if_splits)
  then show ?thesis by (simp add: length_copy_at)
qed

lemma copy_docs_Inr_length:
  "copy_docs ds (loc, buf) = Inr (loc', buf') \<Longrightarrow> length buf' = length buf"
proof (induction ds arbitrary: loc buf)
  case Nil
  then show ?case by simp
next
  case (Cons d ds)
  show ?case
  proof (cases "Copy d (loc, buf)")
    case (Inl p)
    then show ?thesis using Cons.prems by (simp add: and_then_def)
  next
    case (Inr st)
    obtain l1 b1 where st: "st = (l1, b1)" by (cases st)
    have "length b1 = length buf" using Inr st Copy_Inr_length by blast
    moreover have "copy_docs ds (l1, b1) = Inr (loc', buf')"
      using Cons.prems Inr st by (simp add: and_then_def)
    ultimately show ?thesis using Cons.IH by simp
  qed
qed

lemma WriteInto_Inr_length: "WriteInto h buf = Inr buf' \<Longrightarrow> length buf' = length buf"
  by (auto simp: WriteInto_def writeInt32_def split: if_splits)

lemma make_bytes_Inr_length: "make_bytes n = Inr buf \<Longrightarrow> int (length buf) = n"
  by (auto simp: make_bytes_def split: if_splits)

lemma Serialize_Inr:
  assumes "Serialize m = Inr (m', buf)"
  shows "m' = m\<lparr>header := (header m)\<lparr>MessageHeader.Size := word_of_int (total_size m)\<rparr>\<rparr>
         \<and> int (length buf) = total_size m"
proof -
  let ?T = "total_size m"
  let ?h = "(header m)\<lparr>MessageHeader.Size := word_of_int ?T\<rparr>"
  have unf: "Serialize m =
      and_then (make_bytes ?T) (\<lambda>buf. and_then (WriteInto ?h buf) (\<lambda>buf.
        and_then (copy_docs (all_docs m) (16, buf)) (\<lambda>st. Inr (m\<lparr>header := ?h\<rparr>, snd st))))"
    by (simp add: Serialize_def Let_def sum_sizes_eq total_size_def all_docs_def and_then_def
          split: sum.splits)
  from assms obtain b0 where b0: "make_bytes ?T = Inr b0"
    unfolding unf by (cases "make_bytes ?T") (simp_all add: and_then_def)
  from assms b0 obtain b1 where b1: "WriteInto ?h b0 = Inr b1"
    unfolding unf by (cases "WriteInto ?h b0") (simp_all add: and_then_def)
  from assms b0 b1 obtain st where st: "copy_docs (all_docs m) (16, b1) = Inr st"
    unfolding unf by (cases "copy_docs (all_docs m) (16, b1)") (simp_all add: and_then_def)
  obtain l2 b2 where st2: "st = (l2, b2)" by (cases st)
  have res: "m' = m\<lparr>header := ?h\<rparr>" "buf = b2"
    using assms b0 b1 st st2 unfolding unf by (simp_all add: and_then_def)
  have "length b2 = length b1" using st st2 copy_docs_Inr_length by blast
  also have "\<dots> = length b0" using b1 by (rule WriteInto_Inr_length)
  finally have "int (length b2) = ?T" using make_bytes_Inr_length [OF b0] by simp
  then show ?thesis using res by simp
qed

subsection \<open>The claims on the codec\<close>

text \<open>
  C2, as the claim states it, fails for some messages. A CommandReply of recorded size
  -100 makes the sum -84, and \<open>make([]byte, size)\<close> panics: no buffer is returned.
  Two documents of recorded size \<open>2 ^ 30\<close> make the sum 2147483664: \<open>Serialize\<close>
  returns a buffer of that length, but the header's \<open>int32\<close> Size field holds
  -2147483632.
\<close>

theorem Serialize_every_message_counterexample:
  "Serialize
     \<lparr>header = \<lparr>MessageHeader.Size = 0, RequestID = 1, ResponseTo = 2, OpCode = 2011\<rparr>,
      CommandReply = \<lparr>SimpleBSON.Size = - 100, BSON = []\<rparr>,
      Metadata = \<lparr>SimpleBSON.Size = 0, BSON = []\<rparr>,
      OutputDocs = []\<rparr>
   = Inl MakeSliceLenOutOfRange
   \<and> (\<exists>m' buf.
        Serialize
          \<lparr>header = \<lparr>MessageHeader.Size = 0, RequestID = 1, ResponseTo = 2, OpCode = 2011\<rparr>,
           CommandReply = \<lparr>SimpleBSON.Size = 1073741824, BSON = []\<rparr>,
           Metadata = \<lparr>SimpleBSON.Size = 1073741824, BSON = []\<rparr>,
           OutputDocs = []\<rparr>
        = Inr (m', buf)
        \<and> int (length buf) = 2147483664
        \<and> sint (MessageHeader.Size (header m')) = - 2147483632)"
proof
  show "Serialize
     \<lparr>header = \<lparr>MessageHeader.Size = 0, RequestID = 1, ResponseTo = 2, OpCode = 2011\<rparr>,
      CommandReply = \<lparr>SimpleBSON.Size = - 100, BSON = []\<rparr>,
      Metadata = \<lparr>SimpleBSON.Size = 0, BSON = []\<rparr>,
      OutputDocs = []\<rparr>
   = Inl MakeSliceLenOutOfRange"
    by (simp add: Serialize_def Let_def make_bytes_def and_then_def)
next
  let ?m = "\<lparr>header = \<lparr>MessageHeader.Size = 0, RequestID = 1, ResponseTo = 2, OpCode = 2011\<rparr>,
           CommandReply = \<lparr>SimpleBSON.Size = 1073741824, BSON = []\<rparr>,
           Metadata = \<lparr>SimpleBSON.Size = 1073741824, BSON = []\<rparr>,
           OutputDocs = []\<rparr>"
  have T: "total_size ?m = 2147483664" by (simp add: total_size_def)
  have nn: "\<forall>d \<in> set (CommandReply ?m # Metadata ?m # OutputDocs ?m). 0 \<le> sint (SimpleBSON.Size d)"
    by simp
  from Serialize_returns [OF nn]
  obtain buf where S: "Serialize ?m
      = Inr (?m\<lparr>header := (header ?m)\<lparr>MessageHeader.Size := word_of_int (total_size ?m)\<rparr>\<rparr>, buf)"
    and L: "int (length buf) = total_size ?m" by blast
  have W: "sint (word_of_int (total_size ?m) :: int32) = - 2147483632"
    unfolding T by simp
  have H: "sint (MessageHeader.Size (header
      (?m\<lparr>header := (header ?m)\<lparr>MessageHeader.Size := word_of_int (total_size ?m)\<rparr>\<rparr>)))
      = - 2147483632"
    using W by simp
  have L': "int (length buf) = 2147483664" using L T by simp
  show "\<exists>m' buf. Serialize ?m = Inr (m', buf) \<and> int (length buf) = 2147483664
        \<and> sint (MessageHeader.Size (header m')) = - 2147483632"
    using S L' H by blast
qed

text \<open>
  C2, amended. \<open>Serialize\<close> never reads the size stored in the header: with any other
  stored size it does the same. For every CommandReplyMessage whose documents' sizes
  are not negative and add up, with 16, to less than \<open>2 ^ 31\<close>, it returns, having set
  the header's Size field to 16 plus CommandReply.Size plus Metadata.Size plus the
  sizes of the OutputDocs, with a buffer of exactly that length. For every message,
  whenever it returns, the field is that sum cut to \<open>int32\<close> and the buffer has
  exactly as many bytes as the sum.
\<close>

theorem Serialize_recomputes_size:
  "(\<forall>s. Serialize (m\<lparr>header := (header m)\<lparr>MessageHeader.Size := s\<rparr>\<rparr>) = Serialize m)
   \<and> ((\<forall>d \<in> set (all_docs m). 0 \<le> sint (SimpleBSON.Size d)) \<and> total_size m < 2 ^ 31 \<longrightarrow>
         (\<exists>m' buf. Serialize m = Inr (m', buf)
            \<and> sint (MessageHeader.Size (header m')) = total_size m
            \<and> int (length buf) = total_size m
            \<and> m' = m\<lparr>header := (header m)\<lparr>MessageHeader.Size := word_of_int (total_size m)\<rparr>\<rparr>))
   \<and> (\<forall>m' buf. Serialize m = Inr (m', buf) \<longrightarrow>
         m' = m\<lparr>header := (header m)\<lparr>MessageHeader.Size := word_of_int (total_size m)\<rparr>\<rparr>
         \<and> int (length buf) = total_size m)"
proof (intro conjI allI impI)
  fix s show "Serialize (m\<lparr>header := (header m)\<lparr>MessageHeader.Size := s\<rparr>\<rparr>) = Serialize m"
    by (rule Serialize_stale)
next
  fix m' buf assume "Serialize m = Inr (m', buf)"
  then show "m' = m\<lparr>header := (header m)\<lparr>MessageHeader.Size := word_of_int (total_size m)\<rparr>\<rparr>"
    and "int (length buf) = total_size m"
    using Serialize_Inr by blast+
next
  assume a: "(\<forall>d \<in> set (all_docs m). 0 \<le> sint (SimpleBSON.Size d)) \<and> total_size m < 2 ^ 31"
  let ?m' = "m\<lparr>header := (header m)\<lparr>MessageHeader.Size := word_of_int (total_size m)\<rparr>\<rparr>"
  from a have nn: "\<forall>d \<in> set (CommandReply m # Metadata m # OutputDocs m).
      0 \<le> sint (SimpleBSON.Size d)"
    by (simp add: all_docs_def)
  then obtain buf where S: "Serialize m = Inr (?m', buf)" and L: "int (length buf) = total_size m"
    using Serialize_returns [of m] by blast
  have "0 \<le> (\<Sum>d\<leftarrow>OutputDocs m. sint (SimpleBSON.Size d))"
    using nn by (intro sum_list_nonneg) auto
  then have T0: "0 \<le> total_size m" using nn by (simp add: total_size_def)
  have "sint (word_of_int (total_size m) :: int32) = total_size m"
    using T0 a by (simp add: sint_sbintrunc' signed_take_bit_int_eq_self)
  then have W: "sint (MessageHeader.Size (header ?m')) = total_size m" by simp
  show "\<exists>m' buf. Serialize m = Inr (m', buf)
            \<and> sint (MessageHeader.Size (header m')) = total_size m
            \<and> int (length buf) = total_size m
            \<and> m' = m\<lparr>header := (header m)\<lparr>MessageHeader.Size := word_of_int (total_size m)\<rparr>\<rparr>"
    using S L W by blast
qed

theorem Serialize_recomputes_size_witness:
  "(\<forall>d \<in> set (all_docs
       \<lparr>header = \<lparr>MessageHeader.Size = 999, RequestID = 1, ResponseTo = 2, OpCode = 2011\<rparr>,
        CommandReply = \<lparr>SimpleBSON.Size = 5, BSON = [5, 0, 0, 0, 0]\<rparr>,
        Metadata = \<lparr>SimpleBSON.Size = 5, BSON = [5, 0, 0, 0, 0]\<rparr>,
        OutputDocs = [\<lparr>SimpleBSON.Size = 5, BSON = [5, 0, 0, 0, 0]\<rparr>]\<rparr>).
      0 \<le> sint (SimpleBSON.Size d)) = True
   \<and> Serialize
     \<lparr>header = \<lparr>MessageHeader.Size = 999, RequestID = 1, ResponseTo = 2, OpCode = 2011\<rparr>,
      CommandReply = \<lparr>SimpleBSON.Size = 5, BSON = [5, 0, 0, 0, 0]\<rparr>,
      Metadata = \<lparr>SimpleBSON.Size = 5, BSON = [5, 0, 0, 0, 0]\<rparr>,
      OutputDocs = [\<lparr>SimpleBSON.Size = 5, BSON = [5, 0, 0, 0, 0]\<rparr>]\<rparr>
   = Inr (\<lparr>header = \<lparr>MessageHeader.Size = 31, RequestID = 1, ResponseTo = 2, OpCode = 2011\<rparr>,
           CommandReply = \<lparr>SimpleBSON.Size = 5, BSON = [5, 0, 0, 0, 0]\<rparr>,
           Metadata = \<lparr>SimpleBSON.Size = 5, BSON = [5, 0, 0, 0, 0]\<rparr>,
           OutputDocs = [\<lparr>SimpleBSON.Size = 5, BSON = [5, 0, 0, 0, 0]\<rparr>]\<rparr>,
          [31, 0, 0, 0, 1, 0, 0, 0, 2, 0, 0, 0, 219, 7, 0, 0,
           5, 0, 0, 0, 0, 5, 0, 0, 0, 0, 5, 0, 0, 0, 0])
   \<and> total_size
       \<lparr>header = \<lparr>MessageHeader.Size = 999, RequestID = 1, ResponseTo = 2, OpCode = 2011\<rparr>,
        CommandReply = \<lparr>SimpleBSON.Size = 5, BSON = [5, 0, 0, 0, 0]\<rparr>,
        Metadata = \<lparr>SimpleBSON.Size = 5, BSON = [5, 0, 0, 0, 0]\<rparr>,
        OutputDocs = [\<lparr>SimpleBSON.Size = 5, BSON = [5, 0, 0, 0, 0]\<rparr>]\<rparr> = 31"
proof -
  let ?m = "\<lparr>header = \<lparr>MessageHeader.Size = 999, RequestID = 1, ResponseTo = 2, OpCode = 2011\<rparr>,
      CommandReply = \<lparr>SimpleBSON.Size = 5, BSON = [5, 0, 0, 0, 0]\<rparr>,
      Metadata = \<lparr>SimpleBSON.Size = 5, BSON = [5, 0, 0, 0, 0]\<rparr>,
      OutputDocs = [\<lparr>SimpleBSON.Size = 5, BSON = [5, 0, 0, 0, 0]\<rparr>]\<rparr>"
  let ?bytes = "[31, 0, 0, 0, 1, 0, 0, 0, 2, 0, 0, 0, 219, 7, 0, 0,
           5, 0, 0, 0, 0, 5, 0, 0, 0, 0, 5, 0, 0, 0, 0] :: byte list"
  have nn: "\<forall>d \<in> set (all_docs ?m). 0 \<le> sint (SimpleBSON.Size d)"
    by (simp add: all_docs_def)
  have T: "total_size ?m = 31" by (simp add: total_size_def)
  have lt: "total_size ?m < 2 ^ 31" unfolding T by simp
  have S: "Serialize ?m
     = Inr (?m\<lparr>header := \<lparr>MessageHeader.Size = 31, RequestID = 1, ResponseTo = 2, OpCode = 2011\<rparr>\<rparr>,
            ?bytes)"
    by (simp add: Serialize_def Let_def make_bytes_def WriteInto_def Copy_def slice_from_def
        copy_at_def and_then_def writeInt32_def)
  from Serialize_recomputes_size [of ?m]
  have "(\<forall>d \<in> set (all_docs ?m). 0 \<le> sint (SimpleBSON.Size d)) \<and> total_size ?m < 2 ^ 31 \<longrightarrow>
         (\<exists>m' buf. Serialize ?m = Inr (m', buf)
            \<and> sint (MessageHeader.Size (header m')) = total_size ?m
            \<and> int (length buf) = total_size ?m
            \<and> m' = ?m\<lparr>header := (header ?m)\<lparr>MessageHeader.Size := word_of_int (total_size ?m)\<rparr>\<rparr>)"
    by (elim conjE)
  with nn lt obtain m' buf where "Serialize ?m = Inr (m', buf)"
    and "int (length buf) = total_size ?m" by blast
  with S have "int (length ?bytes) = total_size ?m" by simp
  then have "total_size ?m = 31" by simp
  with nn S show ?thesis by simp
qed

text \<open>
  C6. For every buffer made of a CommandReply document, a Metadata document and zero
  or more further documents, each declaring its size in its first four bytes and
  spanning that many bytes, \<open>parseCommandReplyMessage\<close> returns, without error, the
  message holding the first document as CommandReply, the second as Metadata and the
  others, in buffer order, as OutputDocs; the cursor advances by each document's
  recorded size and ends on the empty buffer. The loop makes one pass per output
  document and one more to see the buffer empty, which is the fuel asked for.
\<close>

theorem parse_consumes_documents:
  assumes "\<forall>d \<in> set (c # md # outs). wf_doc d" and "length outs < fuel"
  shows "parseCommandReplyMessage parseSimpleBSON fuel h
           (BSON c @ BSON md @ concat (map BSON outs))
         = Some (Inr (\<lparr>header = h, CommandReply = c, Metadata = md, OutputDocs = outs\<rparr>, None))
       \<and> parses_to parseSimpleBSON (c # md # outs) (BSON c @ BSON md @ concat (map BSON outs)) []"
proof
  show "parseCommandReplyMessage parseSimpleBSON fuel h
           (BSON c @ BSON md @ concat (map BSON outs))
         = Some (Inr (\<lparr>header = h, CommandReply = c, Metadata = md, OutputDocs = outs\<rparr>, None))"
    using assms by (rule parse_wf)
  show "parses_to parseSimpleBSON (c # md # outs) (BSON c @ BSON md @ concat (map BSON outs)) []"
    using parses_to_wf [OF assms(1), of "[]"] by simp
qed

theorem parse_consumes_documents_witness:
  "parseCommandReplyMessage parseSimpleBSON 3
     \<lparr>MessageHeader.Size = 37, RequestID = 1, ResponseTo = 2, OpCode = 2011\<rparr>
     [5, 0, 0, 0, 0, 6, 0, 0, 0, 7, 0, 5, 0, 0, 0, 0, 5, 0, 0, 0, 0]
   = Some (Inr (\<lparr>header = \<lparr>MessageHeader.Size = 37, RequestID = 1, ResponseTo = 2, OpCode = 2011\<rparr>,
                 CommandReply = \<lparr>SimpleBSON.Size = 5, BSON = [5, 0, 0, 0, 0]\<rparr>,
                 Metadata = \<lparr>SimpleBSON.Size = 6, BSON = [6, 0, 0, 0, 7, 0]\<rparr>,
                 OutputDocs = [\<lparr>SimpleBSON.Size = 5, BSON = [5, 0, 0, 0, 0]\<rparr>,
                               \<lparr>SimpleBSON.Size = 5, BSON = [5, 0, 0, 0, 0]\<rparr>]\<rparr>, None))"
proof -
  have wf: "\<forall>d \<in> set (\<lparr>SimpleBSON.Size = 5, BSON = [5, 0, 0, 0, 0]\<rparr>
                # \<lparr>SimpleBSON.Size = 6, BSON = [6, 0, 0, 0, 7, 0]\<rparr>
                # [\<lparr>SimpleBSON.Size = 5, BSON = [5, 0, 0, 0, 0]\<rparr>,
                   \<lparr>SimpleBSON.Size = 5, BSON = [5, 0, 0, 0, 0]\<rparr>]). wf_doc d"
    by (simp add: wf_doc_def size_is_length_def declares_size_def le32_def)
  have fuel: "length [\<lparr>SimpleBSON.Size = 5, BSON = [5, 0, 0, 0, 0]\<rparr>,
                      \<lparr>SimpleBSON.Size = 5, BSON = [5, 0, 0, 0, 0]\<rparr>] < (3::nat)"
    by simp
  show ?thesis
    using parse_consumes_documents [OF wf fuel,
      of "\<lparr>MessageHeader.Size = 37, RequestID = 1, ResponseTo = 2, OpCode = 2011\<rparr>"]
    by simp
qed

text \<open>
  C3. \<open>parseCommandReplyMessage\<close> never panics: none of its three cursor advances
  \<open>buf = buf[doc.Size:]\<close> is out of range, on any bytes and for any \<open>parseSimpleBSON\<close>
  that returns a document only when its size lies within the buffer, as the modelled
  one does. Every error it returns is MalformedMessage. And when the documents read
  one after the other leave a buffer whose declared size exceeds it, the parser
  returns with MalformedMessage (the fuel covers one pass of the loop per output
  document read, and the failing one).
\<close>

theorem parse_malformed_never_panics:
  "(\<forall>psb p. within_buffer psb \<longrightarrow> parseCommandReplyMessage psb fuel h buf \<noteq> Some (Inl p))
   \<and> within_buffer parseSimpleBSON
   \<and> (\<forall>p. parseCommandReplyMessage parseSimpleBSON fuel h buf \<noteq> Some (Inl p))
   \<and> (\<forall>rm e. parseCommandReplyMessage parseSimpleBSON fuel h buf = Some (Inr (rm, Some e))
         \<longrightarrow> e = MalformedMessage)
   \<and> (\<forall>ds rest. parses_to parseSimpleBSON ds buf rest \<and> exceeds rest \<and> length ds < fuel + 2
         \<longrightarrow> (\<exists>rm. parseCommandReplyMessage parseSimpleBSON fuel h buf
                      = Some (Inr (rm, Some MalformedMessage))))"
proof (intro conjI allI impI)
  fix psb p assume "within_buffer psb"
  then show "parseCommandReplyMessage psb fuel h buf \<noteq> Some (Inl p)" by (rule parse_no_panic)
next
  show "within_buffer parseSimpleBSON" by (rule psb_within)
next
  fix p show "parseCommandReplyMessage parseSimpleBSON fuel h buf \<noteq> Some (Inl p)"
    using psb_within by (rule parse_no_panic)
next
  fix rm e assume "parseCommandReplyMessage parseSimpleBSON fuel h buf = Some (Inr (rm, Some e))"
  then show "e = MalformedMessage" by (rule parse_errors [OF psb_only_malformed])
next
  fix ds rest
  assume "parses_to parseSimpleBSON ds buf rest \<and> exceeds rest \<and> length ds < fuel + 2"
  then show "\<exists>rm. parseCommandReplyMessage parseSimpleBSON fuel h buf
                = Some (Inr (rm, Some MalformedMessage))"
    using parse_exceeds by blast
qed

theorem parse_malformed_never_panics_witness:
  "parses_to parseSimpleBSON
     [\<lparr>SimpleBSON.Size = 5, BSON = [5, 0, 0, 0, 0]\<rparr>,
      \<lparr>SimpleBSON.Size = 5, BSON = [5, 0, 0, 0, 0]\<rparr>,
      \<lparr>SimpleBSON.Size = 5, BSON = [5, 0, 0, 0, 0]\<rparr>]
     [5, 0, 0, 0, 0, 5, 0, 0, 0, 0, 5, 0, 0, 0, 0, 100, 0, 0, 0, 1]
     [100, 0, 0, 0, 1]
   \<and> exceeds [100, 0, 0, 0, 1]
   \<and> parseCommandReplyMessage parseSimpleBSON 2 zeroMessageHeader
       [5, 0, 0, 0, 0, 5, 0, 0, 0, 0, 5, 0, 0, 0, 0, 100, 0, 0, 0, 1]
     = Some (Inr (\<lparr>header = zeroMessageHeader,
                   CommandReply = \<lparr>SimpleBSON.Size = 5, BSON = [5, 0, 0, 0, 0]\<rparr>,
                   Metadata = \<lparr>SimpleBSON.Size = 5, BSON = [5, 0, 0, 0, 0]\<rparr>,
                   OutputDocs = [\<lparr>SimpleBSON.Size = 5, BSON = [5, 0, 0, 0, 0]\<rparr>]\<rparr>,
                  Some MalformedMessage))"
proof -
  let ?d = "\<lparr>SimpleBSON.Size = 5, BSON = [5, 0, 0, 0, 0]\<rparr>"
  let ?buf = "[5, 0, 0, 0, 0, 5, 0, 0, 0, 0, 5, 0, 0, 0, 0, 100, 0, 0, 0, 1] :: byte list"
  have P: "parses_to parseSimpleBSON [?d, ?d, ?d] ?buf [100, 0, 0, 0, 1]"
    by (simp add: parseSimpleBSON_def le32_def)
  have E: "exceeds [100, 0, 0, 0, 1]"
    by (simp add: exceeds_def le32_def)
  have L: "length [?d, ?d, ?d] < (2::nat) + 2" by simp
  have R: "parseCommandReplyMessage parseSimpleBSON 2 zeroMessageHeader ?buf
     = Some (Inr (\<lparr>header = zeroMessageHeader, CommandReply = ?d, Metadata = ?d,
                   OutputDocs = [?d]\<rparr>, Some MalformedMessage))"
    by code_simp
  from parse_malformed_never_panics [of 2 zeroMessageHeader ?buf]
  have "\<forall>ds rest. parses_to parseSimpleBSON ds ?buf rest \<and> exceeds rest \<and> length ds < 2 + 2
         \<longrightarrow> (\<exists>rm. parseCommandReplyMessage parseSimpleBSON 2 zeroMessageHeader ?buf
                      = Some (Inr (rm, Some MalformedMessage)))"
    by (elim conjE)
  with P E L have "\<exists>rm. parseCommandReplyMessage parseSimpleBSON 2 zeroMessageHeader ?buf
                      = Some (Inr (rm, Some MalformedMessage))"
    by blast
  with R have "parseCommandReplyMessage parseSimpleBSON 2 zeroMessageHeader ?buf
     = Some (Inr (\<lparr>header = zeroMessageHeader, CommandReply = ?d, Metadata = ?d,
                   OutputDocs = [?d]\<rparr>, Some MalformedMessage))"
    by simp
  with P E show ?thesis by (intro conjI)
qed

text \<open>
  A document whose recorded size is the length of its span, but whose first four bytes
  declare another size (100 for five bytes), is written by \<open>Serialize\<close> and refused
  when the 26 bytes are parsed back with the modelled \<open>parseSimpleBSON\<close>.
\<close>

lemma roundtrip_declared_size_mismatch:
  "size_is_length \<lparr>SimpleBSON.Size = 5, BSON = [100, 0, 0, 0, 0]\<rparr>
   \<and> size_is_length \<lparr>SimpleBSON.Size = 5, BSON = [5, 0, 0, 0, 0]\<rparr>
   \<and> Serialize
        \<lparr>header = \<lparr>MessageHeader.Size = 26, RequestID = 1, ResponseTo = 2, OpCode = 2011\<rparr>,
         CommandReply = \<lparr>SimpleBSON.Size = 5, BSON = [100, 0, 0, 0, 0]\<rparr>,
         Metadata = \<lparr>SimpleBSON.Size = 5, BSON = [5, 0, 0, 0, 0]\<rparr>,
         OutputDocs = []\<rparr>
      = Inr (\<lparr>header = \<lparr>MessageHeader.Size = 26, RequestID = 1, ResponseTo = 2, OpCode = 2011\<rparr>,
              CommandReply = \<lparr>SimpleBSON.Size = 5, BSON = [100, 0, 0, 0, 0]\<rparr>,
              Metadata = \<lparr>SimpleBSON.Size = 5, BSON = [5, 0, 0, 0, 0]\<rparr>,
              OutputDocs = []\<rparr>,
             [26, 0, 0, 0, 1, 0, 0, 0, 2, 0, 0, 0, 219, 7, 0, 0,
              100, 0, 0, 0, 0, 5, 0, 0, 0, 0])
   \<and> parseCommandReplyMessage parseSimpleBSON 8
        \<lparr>MessageHeader.Size = 26, RequestID = 1, ResponseTo = 2, OpCode = 2011\<rparr>
        (drop 16 [26, 0, 0, 0, 1, 0, 0, 0, 2, 0, 0, 0, 219, 7, 0, 0,
                  100, 0, 0, 0, 0, 5, 0, 0, 0, 0])
      = Some (Inr (\<lparr>header = \<lparr>MessageHeader.Size = 26, RequestID = 1, ResponseTo = 2,
                               OpCode = 2011\<rparr>,
                    CommandReply = \<lparr>SimpleBSON.Size = 0, BSON = []\<rparr>,
                    Metadata = \<lparr>SimpleBSON.Size = 0, BSON = []\<rparr>,
                    OutputDocs = []\<rparr>,
                   Some MalformedMessage))"
  by (simp add: size_is_length_def Serialize_def Let_def make_bytes_def WriteInto_def Copy_def
        slice_from_def copy_at_def and_then_def writeInt32_def
        parseCommandReplyMessage_def parseSimpleBSON_def le32_def
        zeroCommandReplyMessage_def zeroSimpleBSON_def)

text \<open>
  C1, as the claim states it, fails, whatever \<open>parseSimpleBSON\<close> does. The two
  messages below differ (a two-byte CommandReply and an empty Metadata, against an
  empty CommandReply and a two-byte Metadata); in both, every document's recorded size
  is the length of its span; \<open>Serialize\<close> gives both the same header and the same
  eighteen bytes. No parser of those bytes returns both messages.
\<close>

theorem roundtrip_size_is_length_counterexample:
  "size_is_length \<lparr>SimpleBSON.Size = 2, BSON = [1, 2]\<rparr>
   \<and> size_is_length \<lparr>SimpleBSON.Size = 0, BSON = []\<rparr>
   \<and> Serialize
        \<lparr>header = \<lparr>MessageHeader.Size = 18, RequestID = 1, ResponseTo = 2, OpCode = 2011\<rparr>,
         CommandReply = \<lparr>SimpleBSON.Size = 2, BSON = [1, 2]\<rparr>,
         Metadata = \<lparr>SimpleBSON.Size = 0, BSON = []\<rparr>,
         OutputDocs = []\<rparr>
      = Inr (\<lparr>header = \<lparr>MessageHeader.Size = 18, RequestID = 1, ResponseTo = 2, OpCode = 2011\<rparr>,
              CommandReply = \<lparr>SimpleBSON.Size = 2, BSON = [1, 2]\<rparr>,
              Metadata = \<lparr>SimpleBSON.Size = 0, BSON = []\<rparr>,
              OutputDocs = []\<rparr>,
             [18, 0, 0, 0, 1, 0, 0, 0, 2, 0, 0, 0, 219, 7, 0, 0, 1, 2])
   \<and> Serialize
        \<lparr>header = \<lparr>MessageHeader.Size = 18, RequestID = 1, ResponseTo = 2, OpCode = 2011\<rparr>,
         CommandReply = \<lparr>SimpleBSON.Size = 0, BSON = []\<rparr>,
         Metadata = \<lparr>SimpleBSON.Size = 2, BSON = [1, 2]\<rparr>,
         OutputDocs = []\<rparr>
      = Inr (\<lparr>header = \<lparr>MessageHeader.Size = 18, RequestID = 1, ResponseTo = 2, OpCode = 2011\<rparr>,
              CommandReply = \<lparr>SimpleBSON.Size = 0, BSON = []\<rparr>,
              Metadata = \<lparr>SimpleBSON.Size = 2, BSON = [1, 2]\<rparr>,
              OutputDocs = []\<rparr>,
             [18, 0, 0, 0, 1, 0, 0, 0, 2, 0, 0, 0, 219, 7, 0, 0, 1, 2])
   \<and> \<not> (\<exists>psb fuel.
          parseCommandReplyMessage psb fuel
            \<lparr>MessageHeader.Size = 18, RequestID = 1, ResponseTo = 2, OpCode = 2011\<rparr>
            (drop 16 [18, 0, 0, 0, 1, 0, 0, 0, 2, 0, 0, 0, 219, 7, 0, 0, 1, 2])
          = Some (Inr (\<lparr>header = \<lparr>MessageHeader.Size = 18, RequestID = 1, ResponseTo = 2,
                                   OpCode = 2011\<rparr>,
                        CommandReply = \<lparr>SimpleBSON.Size = 2, BSON = [1, 2]\<rparr>,
                        Metadata = \<lparr>SimpleBSON.Size = 0, BSON = []\<rparr>,
                        OutputDocs = []\<rparr>, None))
          \<and> parseCommandReplyMessage psb fuel
            \<lparr>MessageHeader.Size = 18, RequestID = 1, ResponseTo = 2, OpCode = 2011\<rparr>
            (drop 16 [18, 0, 0, 0, 1, 0, 0, 0, 2, 0, 0, 0, 219, 7, 0, 0, 1, 2])
          = Some (Inr (\<lparr>header = \<lparr>MessageHeader.Size = 18, RequestID = 1, ResponseTo = 2,
                                   OpCode = 2011\<rparr>,
                        CommandReply = \<lparr>SimpleBSON.Size = 0, BSON = []\<rparr>,
                        Metadata = \<lparr>SimpleBSON.Size = 2, BSON = [1, 2]\<rparr>,
                        OutputDocs = []\<rparr>, None)))"
  by (auto simp add: size_is_length_def Serialize_def Let_def make_bytes_def WriteInto_def Copy_def
        slice_from_def copy_at_def and_then_def writeInt32_def)

text \<open>
  C1, amended. For every CommandReplyMessage \<open>m\<close> whose documents each have a recorded
  size equal to the length of their span and declared, little-endian, in the span's
  first four bytes, \<open>Serialize\<close> returns a buffer, and parsing that buffer past its
  sixteen header bytes returns, without error, a message with the CommandReply,
  Metadata and OutputDocs of \<open>m\<close> and the header it was given: the message as
  \<open>Serialize\<close> left it for the header as \<open>Serialize\<close> left it, and \<open>m\<close> itself for the
  header of \<open>m\<close>.
\<close>

theorem Serialize_parse_roundtrip:
  assumes wf: "\<forall>d \<in> set (all_docs m). wf_doc d" and fuel: "length (OutputDocs m) < fuel"
  shows "\<exists>m' buf. Serialize m = Inr (m', buf)
           \<and> CommandReply m' = CommandReply m \<and> Metadata m' = Metadata m
           \<and> OutputDocs m' = OutputDocs m
           \<and> parseCommandReplyMessage parseSimpleBSON fuel (header m') (drop 16 buf)
               = Some (Inr (m', None))
           \<and> parseCommandReplyMessage parseSimpleBSON fuel (header m) (drop 16 buf)
               = Some (Inr (m, None))"
proof -
  let ?h = "(header m)\<lparr>MessageHeader.Size := word_of_int (total_size m)\<rparr>"
  let ?m' = "m\<lparr>header := ?h\<rparr>"
  let ?body = "concat (map BSON (all_docs m))"
  from wf have sl: "\<forall>d \<in> set (all_docs m). size_is_length d" by (simp add: wf_doc_def)
  have S: "Serialize m = Inr (?m', header_bytes ?h @ ?body)" by (rule Serialize_wf [OF sl])
  have body: "drop 16 (header_bytes ?h @ ?body)
                = BSON (CommandReply m) @ BSON (Metadata m) @ concat (map BSON (OutputDocs m))"
    by (simp add: length_header_bytes all_docs_def)
  have wf': "\<forall>d \<in> set (CommandReply m # Metadata m # OutputDocs m). wf_doc d"
    using wf by (simp add: all_docs_def)
  have p: "\<And>h. parseCommandReplyMessage parseSimpleBSON fuel h (drop 16 (header_bytes ?h @ ?body))
        = Some (Inr (\<lparr>header = h, CommandReply = CommandReply m, Metadata = Metadata m,
                       OutputDocs = OutputDocs m\<rparr>, None))"
    unfolding body by (rule parse_wf [OF wf' fuel])
  show ?thesis using S p [of ?h] p [of "header m"] by simp
qed

theorem Serialize_parse_roundtrip_witness:
  "(\<forall>d \<in> set (all_docs
       \<lparr>header = \<lparr>MessageHeader.Size = 999, RequestID = 1, ResponseTo = 2, OpCode = 2011\<rparr>,
        CommandReply = \<lparr>SimpleBSON.Size = 5, BSON = [5, 0, 0, 0, 0]\<rparr>,
        Metadata = \<lparr>SimpleBSON.Size = 6, BSON = [6, 0, 0, 0, 7, 0]\<rparr>,
        OutputDocs = [\<lparr>SimpleBSON.Size = 5, BSON = [5, 0, 0, 0, 0]\<rparr>]\<rparr>). wf_doc d) = True
   \<and> parseCommandReplyMessage parseSimpleBSON 2
        \<lparr>MessageHeader.Size = 32, RequestID = 1, ResponseTo = 2, OpCode = 2011\<rparr>
        (drop 16 [32, 0, 0, 0, 1, 0, 0, 0, 2, 0, 0, 0, 219, 7, 0, 0,
                  5, 0, 0, 0, 0, 6, 0, 0, 0, 7, 0, 5, 0, 0, 0, 0])
      = Some (Inr (\<lparr>header = \<lparr>MessageHeader.Size = 32, RequestID = 1, ResponseTo = 2,
                               OpCode = 2011\<rparr>,
                    CommandReply = \<lparr>SimpleBSON.Size = 5, BSON = [5, 0, 0, 0, 0]\<rparr>,
                    Metadata = \<lparr>SimpleBSON.Size = 6, BSON = [6, 0, 0, 0, 7, 0]\<rparr>,
                    OutputDocs = [\<lparr>SimpleBSON.Size = 5, BSON = [5, 0, 0, 0, 0]\<rparr>]\<rparr>, None))"
proof -
  let ?m = "\<lparr>header = \<lparr>MessageHeader.Size = 999, RequestID = 1, ResponseTo = 2, OpCode = 2011\<rparr>,
        CommandReply = \<lparr>SimpleBSON.Size = 5, BSON = [5, 0, 0, 0, 0]\<rparr>,
        Metadata = \<lparr>SimpleBSON.Size = 6, BSON = [6, 0, 0, 0, 7, 0]\<rparr>,
        OutputDocs = [\<lparr>SimpleBSON.Size = 5, BSON = [5, 0, 0, 0, 0]\<rparr>]\<rparr>"
  have wf: "\<forall>d \<in> set (all_docs ?m). wf_doc d"
    by (simp add: all_docs_def wf_doc_def size_is_length_def declares_size_def le32_def)
  have fuel: "length (OutputDocs ?m) < (2::nat)" by simp
  have S: "Serialize ?m
      = Inr (?m\<lparr>header := \<lparr>MessageHeader.Size = 32, RequestID = 1, ResponseTo = 2, OpCode = 2011\<rparr>\<rparr>,
             [32, 0, 0, 0, 1, 0, 0, 0, 2, 0, 0, 0, 219, 7, 0, 0,
              5, 0, 0, 0, 0, 6, 0, 0, 0, 7, 0, 5, 0, 0, 0, 0])"
    by (simp add: Serialize_def Let_def make_bytes_def WriteInto_def Copy_def slice_from_def
          copy_at_def and_then_def writeInt32_def)
  show ?thesis
    using Serialize_parse_roundtrip [OF wf fuel] wf unfolding S by simp
qed

section \<open>Properties of the test interceptor\<close>

lemma BSONIndexOf_ge: "- 1 \<le> BSONIndexOf q n"
  by (induction q) (auto simp: Let_def)

lemma remove_at_first:
  "(if BSONIndexOf q n \<ge> 0 then remove_at q (BSONIndexOf q n) else q) = remove_first_key n q"
proof (induction q)
  case Nil
  then show ?case by simp
next
  case (Cons e es)
  show ?case
  proof (cases "fst e = n")
    case True
    then show ?thesis by (simp add: remove_at_def)
  next
    case False
    let ?i = "BSONIndexOf es n"
    show ?thesis
    proof (cases "?i < 0")
      case True
      then show ?thesis using False Cons.IH by (simp add: Let_def)
    next
      case False
      note nn = this
      then have "nat (?i + 1) = Suc (nat ?i)" "nat (?i + 1 + 1) = Suc (nat (?i + 1))" by simp_all
      then show ?thesis using \<open>fst e \<noteq> n\<close> nn Cons.IH
        by (simp add: Let_def remove_at_def)
    qed
  qed
qed

lemma keys_remove_first: "keys (remove_first_key n q) = remove1 n (keys q)"
  by (induction q) (simp_all add: keys_def)

lemma others_remove_first:
  "filter (\<lambda>e. fst e \<noteq> n) (remove_first_key n q) = filter (\<lambda>e. fst e \<noteq> n) q"
  by (induction q) simp_all

lemma count_remove_first:
  "length (filter (\<lambda>e. fst e = n) (remove_first_key n q)) = length (filter (\<lambda>e. fst e = n) q) - 1"
  by (induction q) simp_all

lemma key_in_iff: "(n \<in> set (keys q)) = (0 < length (filter (\<lambda>e. fst e = n) q))"
  by (induction q) (auto simp: keys_def)

lemma gone_iff:
  "(n \<notin> set (keys (remove_first_key n q))) = (length (filter (\<lambda>e. fst e = n) q) \<le> 1)"
  by (simp add: key_in_iff count_remove_first) arith

lemma Intercept_other:
  assumes "\<not> is_handshake N D L m"
  shows "InterceptClientToMongo N D L C m = Inr (m, None, None)"
proof (cases m)
  case (MsgOther x)
  then show ?thesis by (simp add: InterceptClientToMongo_def)
next
  case (MsgQuery mm)
  obtain query e where d: "D (Query mm) = (query, e)" by (cases "D (Query mm)")
  have hd: "query \<noteq> [] \<Longrightarrow> query ! 0 = hd query" by (simp add: hd_conv_nth)
  show ?thesis using assms MsgQuery d hd
    by (auto simp: InterceptClientToMongo_def is_handshake_def Let_def)
qed

lemma Intercept_handshake:
  assumes m: "m = MsgQuery mm" and h: "is_handshake N D L m" and d: "D (Query mm) = (query, e)"
  shows "InterceptClientToMongo N D L C m =
           (case C (remove_first_key ''client'' query) of
              (qb, Some e) \<Rightarrow> Inl ExplicitPanic
            | (qb, None) \<Rightarrow> Inr (MsgQuery (mm\<lparr>Query := qb\<rparr>), None, None))"
proof -
  from m h d have ns: "N (Namespace mm)" and e: "e = None" and ne: "query \<noteq> []"
    and lo: "L (fst (hd query)) = ''ismaster''"
    by (simp_all add: is_handshake_def)
  have hd: "query ! 0 = hd query" using ne by (simp add: hd_conv_nth)
  show ?thesis
    using m ns d e ne lo hd remove_at_first [of query "''client''"]
    by (simp add: InterceptClientToMongo_def Let_def)
qed

text \<open>
  C7, as the claim states it, fails: only the first \<open>client\<close> element is removed, so a
  handshake whose query holds two of them is forwarded with the second one. (The codec
  between raw and decoded documents is taken to be the identity here; any codec gives
  the same decoded sequence to the encoder.)
\<close>

theorem Intercept_two_clients_counterexample:
  "is_handshake (\<lambda>ns. ns = ''admin.$cmd'') (\<lambda>d. (d, None)) ToLowerASCII
     (MsgQuery \<lparr>Namespace = ''admin.$cmd'',
                Query = [(''isMaster'', BInt 1), (''client'', BString ''a''),
                         (''client'', BString ''b'')]\<rparr> :: (bson_value doc, unit, unit) Message)
   \<and> InterceptClientToMongo (\<lambda>ns. ns = ''admin.$cmd'') (\<lambda>d. (d, None)) ToLowerASCII
       (\<lambda>d. (d, None))
       (MsgQuery \<lparr>Namespace = ''admin.$cmd'',
                  Query = [(''isMaster'', BInt 1), (''client'', BString ''a''),
                           (''client'', BString ''b'')]\<rparr> :: (bson_value doc, unit, unit) Message)
     = Inr (MsgQuery \<lparr>Namespace = ''admin.$cmd'',
                      Query = [(''isMaster'', BInt 1), (''client'', BString ''b'')]\<rparr>,
            None, None)
   \<and> ''client'' \<in> set (keys [(''isMaster'', BInt 1), (''client'', BString ''b'')])"
  by code_simp

text \<open>
  C7, amended. A message that is not a QueryMessage on a command namespace whose
  query decodes to a non-empty document with first key \<open>ismaster\<close> (lower-cased) is
  returned unchanged, with no response interceptor and no error. For such a
  handshake, the returned message is the same QueryMessage with its query replaced by
  the encoding of the decoded query without its first \<open>client\<close> element, again with
  no response interceptor and no error (should the encoder fail, the interceptor
  panics). Removing the first \<open>client\<close> element keeps every other element, in
  order, and leaves no \<open>client\<close> key exactly when the query had at most one.
\<close>

theorem Intercept_strips_first_client:
  "(\<not> is_handshake N D L m \<longrightarrow> InterceptClientToMongo N D L C m = Inr (m, None, None))
   \<and> (\<forall>mm query qb. m = MsgQuery mm \<and> is_handshake N D L m \<and> D (Query mm) = (query, None)
          \<and> C (remove_first_key ''client'' query) = (qb, None)
        \<longrightarrow> InterceptClientToMongo N D L C m = Inr (MsgQuery (mm\<lparr>Query := qb\<rparr>), None, None))
   \<and> (\<forall>mm query qb e. m = MsgQuery mm \<and> is_handshake N D L m \<and> D (Query mm) = (query, None)
          \<and> C (remove_first_key ''client'' query) = (qb, Some e)
        \<longrightarrow> InterceptClientToMongo N D L C m = Inl ExplicitPanic)
   \<and> filter (\<lambda>e. fst e \<noteq> ''client'') (remove_first_key ''client'' q)
       = filter (\<lambda>e. fst e \<noteq> ''client'') q
   \<and> keys (remove_first_key ''client'' q) = remove1 ''client'' (keys q)
   \<and> ((''client'' \<notin> set (keys (remove_first_key ''client'' q)))
        = (length (filter (\<lambda>e. fst e = ''client'') q) \<le> 1))"
proof (intro conjI allI impI)
  assume "\<not> is_handshake N D L m"
  then show "InterceptClientToMongo N D L C m = Inr (m, None, None)" by (rule Intercept_other)
next
  fix mm query qb
  assume a: "m = MsgQuery mm \<and> is_handshake N D L m \<and> D (Query mm) = (query, None)
          \<and> C (remove_first_key ''client'' query) = (qb, None)"
  then have "m = MsgQuery mm" "is_handshake N D L m" "D (Query mm) = (query, None)" by auto
  from Intercept_handshake [OF this, of C] a
  show "InterceptClientToMongo N D L C m = Inr (MsgQuery (mm\<lparr>Query := qb\<rparr>), None, None)"
    by simp
next
  fix mm query qb e
  assume a: "m = MsgQuery mm \<and> is_handshake N D L m \<and> D (Query mm) = (query, None)
          \<and> C (remove_first_key ''client'' query) = (qb, Some e)"
  then have "m = MsgQuery mm" "is_handshake N D L m" "D (Query mm) = (query, None)" by auto
  from Intercept_handshake [OF this, of C] a
  show "InterceptClientToMongo N D L C m = Inl ExplicitPanic" by simp
next
  show "filter (\<lambda>e. fst e \<noteq> ''client'') (remove_first_key ''client'' q)
       = filter (\<lambda>e. fst e \<noteq> ''client'') q" by (rule others_remove_first)
  show "keys (remove_first_key ''client'' q) = remove1 ''client'' (keys q)"
    by (rule keys_remove_first)
  show "(''client'' \<notin> set (keys (remove_first_key ''client'' q)))
        = (length (filter (\<lambda>e. fst e = ''client'') q) \<le> 1)" by (rule gone_iff)
qed

theorem Intercept_strips_first_client_witness:
  "InterceptClientToMongo (\<lambda>ns. ns = ''admin.$cmd'') (\<lambda>d. (d, None)) ToLowerASCII
       (\<lambda>d. (d, None))
       (MsgQuery \<lparr>Namespace = ''admin.$cmd'',
                  Query = [(''isMaster'', BInt 1), (''client'', BString ''a''),
                           (''compression'', BString ''none'')]\<rparr> :: (bson_value doc, unit, unit) Message)
     = Inr (MsgQuery \<lparr>Namespace = ''admin.$cmd'',
                      Query = [(''isMaster'', BInt 1), (''compression'', BString ''none'')]\<rparr>,
            None, None)
   \<and> InterceptClientToMongo (\<lambda>ns. ns = ''admin.$cmd'') (\<lambda>d. (d, None)) ToLowerASCII
       (\<lambda>d. (d, None))
       (MsgQuery \<lparr>Namespace = ''test.bar_0'',
                  Query = [(''isMaster'', BInt 1), (''client'', BString ''a'')]\<rparr>
          :: (bson_value doc, unit, unit) Message)
     = Inr (MsgQuery \<lparr>Namespace = ''test.bar_0'',
                      Query = [(''isMaster'', BInt 1), (''client'', BString ''a'')]\<rparr>,
            None, None)"
proof -
  let ?N = "\<lambda>ns. ns = ''admin.$cmd''"
  let ?D = "\<lambda>d :: bson_value doc. (d, None :: error option)"
  let ?q = "[(''isMaster'', BInt 1), (''client'', BString ''a''), (''compression'', BString ''none'')]"
  let ?mm = "\<lparr>Namespace = ''admin.$cmd'', Query = ?q\<rparr>"
  let ?m = "MsgQuery ?mm :: (bson_value doc, unit, unit) Message"
  let ?m2 = "MsgQuery \<lparr>Namespace = ''test.bar_0'',
                  Query = [(''isMaster'', BInt 1), (''client'', BString ''a'')]\<rparr>
          :: (bson_value doc, unit, unit) Message"
  have h: "is_handshake ?N ?D ToLowerASCII ?m" by code_simp
  have nh: "\<not> is_handshake ?N ?D ToLowerASCII ?m2" by code_simp
  have r: "remove_first_key ''client'' ?q
             = [(''isMaster'', BInt 1), (''compression'', BString ''none'')]"
    by simp
  from Intercept_strips_first_client [of ?N ?D ToLowerASCII ?m ?D ?q]
  have "\<forall>mm query qb. ?m = MsgQuery mm \<and> is_handshake ?N ?D ToLowerASCII ?m
          \<and> ?D (Query mm) = (query, None) \<and> ?D (remove_first_key ''client'' query) = (qb, None)
        \<longrightarrow> InterceptClientToMongo ?N ?D ToLowerASCII ?D ?m
              = Inr (MsgQuery (mm\<lparr>Query := qb\<rparr>), None, None)"
    by (elim conjE)
  then have "?m = MsgQuery ?mm \<and> is_handshake ?N ?D ToLowerASCII ?m
          \<and> ?D (Query ?mm) = (?q, None)
          \<and> ?D (remove_first_key ''client'' ?q) = (remove_first_key ''client'' ?q, None)
        \<longrightarrow> InterceptClientToMongo ?N ?D ToLowerASCII ?D ?m
              = Inr (MsgQuery (?mm\<lparr>Query := remove_first_key ''client'' ?q\<rparr>), None, None)"
    by blast
  then have A: "InterceptClientToMongo ?N ?D ToLowerASCII ?D ?m
              = Inr (MsgQuery (?mm\<lparr>Query := remove_first_key ''client'' ?q\<rparr>), None, None)"
    using h by simp
  from Intercept_strips_first_client [of ?N ?D ToLowerASCII ?m2 ?D ?q] nh
  have B: "InterceptClientToMongo ?N ?D ToLowerASCII ?D ?m2 = Inr (?m2, None, None)"
    by blast
  show ?thesis using A B unfolding r by simp
qed

section \<open>Properties of the pool and of the retry policy\<close>

lemma created_release: "created (release c h p) = created p"
  by (simp add: release_def)

lemma created_apply_op:
  "created (apply_op p x) = created p + (if opens_socket p x then 1 else 0)"
  by (cases x)
     (auto simp: acquire_def open_socket_def release_def split: list.splits)

lemma created_run_ops: "created (run_ops p ops) = created p + sockets_opened p ops"
  by (induction ops arbitrary: p) (simp_all add: created_apply_op)

lemma run_ops_append: "run_ops p (xs @ ys) = run_ops (run_ops p xs) ys"
  by (induction xs arbitrary: p) simp_all

lemma pool_ok_NewPool: "pool_ok NewPool"
  by (simp add: pool_ok_def NewPool_def)




text \<open>
  C8. The created-count read by \<open>GetConnectionsCreated\<close> is, after any sequence of
  pool operations from the new pool, exactly the number of sockets the sequence
  opened; from any pool it grows by that number, so it never decreases along a
  sequence; one operation adds one exactly when it opens a socket; and a release,
  healthy or not, leaves it as it is.
\<close>

theorem created_counts_sockets:
  "GetConnectionsCreated (run_ops NewPool ops) = sockets_opened NewPool ops
   \<and> GetConnectionsCreated (run_ops p ops) = GetConnectionsCreated p + sockets_opened p ops
   \<and> GetConnectionsCreated (run_ops p xs) \<le> GetConnectionsCreated (run_ops p (xs @ ys))
   \<and> GetConnectionsCreated (apply_op p x)
       = GetConnectionsCreated p + (if opens_socket p x then 1 else 0)
   \<and> GetConnectionsCreated (release c healthy p) = GetConnectionsCreated p"
proof -
  have "created (run_ops NewPool ops) = sockets_opened NewPool ops"
    by (simp add: created_run_ops NewPool_def)
  moreover have "created (run_ops p xs) \<le> created (run_ops p (xs @ ys))"
    by (simp add: run_ops_append created_run_ops [of "run_ops p xs" ys])
  ultimately show ?thesis
    by (simp add: GetConnectionsCreated_def created_run_ops created_apply_op created_release)
qed

text \<open>
  The counter along the scenario of \<open>TestProxySanity\<close>, with five sessions holding a
  connection at the same time in each round: 0 at start, 5 after the first round, 5
  after the second (the connections are reused), 10 after the round in which every
  forward fails (each session releases its connection as unhealthy and takes a fresh
  one once), 15 after the last round.
\<close>

theorem created_counts_sockets_witness:
  "GetConnectionsCreated NewPool = 0
   \<and> GetConnectionsCreated (run_ops NewPool
        (replicate 5 (Acquire True True) @ map (\<lambda>c. Release c True) [0, 1, 2, 3, 4])) = 5
   \<and> GetConnectionsCreated (run_ops NewPool
        (replicate 5 (Acquire True True) @ map (\<lambda>c. Release c True) [0, 1, 2, 3, 4]
         @ replicate 5 (Acquire True True) @ map (\<lambda>c. Release c True) [4, 3, 2, 1, 0])) = 5
   \<and> GetConnectionsCreated (run_ops NewPool
        (replicate 5 (Acquire True True) @ map (\<lambda>c. Release c True) [0, 1, 2, 3, 4]
         @ replicate 5 (Acquire True True) @ map (\<lambda>c. Release c True) [4, 3, 2, 1, 0]
         @ replicate 5 (Acquire True True) @ map (\<lambda>c. Release c False) [0, 1, 2, 3, 4]
         @ replicate 5 (Acquire True True) @ map (\<lambda>c. Release c False) [5, 6, 7, 8, 9])) = 10
   \<and> GetConnectionsCreated (run_ops NewPool
        (replicate 5 (Acquire True True) @ map (\<lambda>c. Release c True) [0, 1, 2, 3, 4]
         @ replicate 5 (Acquire True True) @ map (\<lambda>c. Release c True) [4, 3, 2, 1, 0]
         @ replicate 5 (Acquire True True) @ map (\<lambda>c. Release c False) [0, 1, 2, 3, 4]
         @ replicate 5 (Acquire True True) @ map (\<lambda>c. Release c False) [5, 6, 7, 8, 9]
         @ replicate 5 (Acquire True True) @ map (\<lambda>c. Release c True) [10, 11, 12, 13, 14])) = 15"
proof -
  let ?r1 = "replicate 5 (Acquire True True) @ map (\<lambda>c. Release c True) [0, 1, 2, 3, 4]"
  let ?r2 = "replicate 5 (Acquire True True) @ map (\<lambda>c. Release c True) [4, 3, 2, 1, 0]"
  let ?r3 = "replicate 5 (Acquire True True) @ map (\<lambda>c. Release c False) [0, 1, 2, 3, 4]
         @ replicate 5 (Acquire True True) @ map (\<lambda>c. Release c False) [5, 6, 7, 8, 9]"
  let ?r4 = "replicate 5 (Acquire True True) @ map (\<lambda>c. Release c True) [10, 11, 12, 13, 14]"
  have s1: "sockets_opened NewPool ?r1 = 5" by code_simp
  have s2: "sockets_opened NewPool (?r1 @ ?r2) = 5" by code_simp
  have s3: "sockets_opened NewPool (?r1 @ ?r2 @ ?r3) = 10" by code_simp
  have s4: "sockets_opened NewPool (?r1 @ ?r2 @ ?r3 @ ?r4) = 15" by code_simp
  have c: "\<And>ops. GetConnectionsCreated (run_ops NewPool ops) = sockets_opened NewPool ops"
    using created_counts_sockets [of _ NewPool "[]" "[]" "Release 0 True" 0 True] by blast
  have z: "GetConnectionsCreated NewPool = 0" by (simp add: GetConnectionsCreated_def NewPool_def)
  show ?thesis
    using z c [of ?r1] c [of "?r1 @ ?r2"] c [of "?r1 @ ?r2 @ ?r3"] c [of "?r1 @ ?r2 @ ?r3 @ ?r4"]
    unfolding s1 s2 s3 s4 by (simp only: append_assoc simp_thms)
qed




end
